theory Spec2Isabelle
  imports Complex_Main
begin

section \<open>Strings\<close>

text \<open>
  JavaScript strings are modelled by HOL strings: one \<^typ>\<open>char\<close> per code unit,
  restricted to the 8-bit range. Thrown \<^verbatim>\<open>Error\<close> objects are modelled by their
  \<^verbatim>\<open>message\<close>, and a function that may throw returns \<open>string + 'a\<close> with
  \<open>Inl\<close> carrying the message.
\<close>

type_synonym path = string

text \<open>The white space and line terminator code units below 256 that
  \<^verbatim>\<open>String.prototype.trim\<close> strips: TAB, LF, VT, FF, CR, SP and NBSP.\<close>

definition is_ws :: "char \<Rightarrow> bool" where
  "is_ws c = (c \<in> set [CHR 0x09, CHR 0x0A, CHR 0x0B, CHR 0x0C, CHR 0x0D, CHR 0x20, CHR 0xA0])"

definition trim :: "string \<Rightarrow> string" where
  "trim s = rev (dropWhile is_ws (rev (dropWhile is_ws s)))"

text \<open>\<^verbatim>\<open>s.split(sep)\<close> for a one-character separator: always at least one piece.\<close>

fun js_split :: "char \<Rightarrow> string \<Rightarrow> string list" where
  "js_split sep [] = [[]]"
| "js_split sep (c # cs) =
     (if c = sep then [] # js_split sep cs
      else (case js_split sep cs of
              [] \<Rightarrow> [[c]]
            | piece # pieces \<Rightarrow> (c # piece) # pieces))"

text \<open>Decimal rendering of an integer inside a template literal.\<close>

definition digit_char :: "nat \<Rightarrow> char" where
  "digit_char d = ''0123456789'' ! d"

fun string_of_nat :: "nat \<Rightarrow> string" where
  "string_of_nat n =
     (if n < 10 then [digit_char n]
      else string_of_nat (n div 10) @ [digit_char (n mod 10)])"

declare string_of_nat.simps [simp del]

definition string_of_int :: "int \<Rightarrow> string" where
  "string_of_int i = (if i < 0 then CHR ''-'' # string_of_nat (nat (- i)) else string_of_nat (nat i))"

section \<open>ocrService.js\<close>

record bbox =
  x0 :: int
  y0 :: int
  x1 :: int
  y1 :: int

record text_unit =
  u_text :: string
  u_confidence :: real
  u_bbox :: bbox

text \<open>The \<^verbatim>\<open>data\<close> object that \<^verbatim>\<open>Tesseract.recognize\<close> resolves to.\<close>

record tesseract_data =
  d_text :: string
  d_confidence :: real
  d_words :: "text_unit list"
  d_lines :: "text_unit list"
  d_paragraphs :: "text_unit list"
  d_blocks :: "text_unit list"

text \<open>The options of \<^verbatim>\<open>extractTextFromImage\<close>, after the destructuring defaults.\<close>

record ocr_options =
  language :: string
  psm :: string
  oem :: string
  whitelist :: string
  blacklist :: string
  preserveInterword :: bool

definition default_ocr_options :: ocr_options where
  "default_ocr_options =
     \<lparr>language = ''eng'', psm = ''3'', oem = ''3'', whitelist = '''', blacklist = '''',
      preserveInterword = False\<rparr>"

text \<open>The object handed to the engine. \<^verbatim>\<open>parseInt(oem)\<close> and \<^verbatim>\<open>parseInt(psm)\<close>
  are functions of the option strings alone; the strings are passed on and the parse
  is left to the engine parameter.\<close>

record tesseract_options =
  lang :: string
  t_oem :: string
  t_psm :: string
  preserve_interword_spaces :: string
  tessedit_char_whitelist :: "string option"
  tessedit_char_blacklist :: "string option"

type_synonym engine_call = "path \<times> string \<times> tesseract_options"

text \<open>The recognition engine is an external collaborator: a parameter of the model. An
  \<open>engine\<close> says how the promise of \<^verbatim>\<open>Tesseract.recognize\<close> settles: it rejects
  (\<open>Inl\<close> the message of the error) or resolves to data. What it answers is a function of
  the image path, the language tag and the options it is given. A failure that is also
  thrown outside the promise is the subject of the section on the process below.\<close>

type_synonym engine = "path \<Rightarrow> string \<Rightarrow> tesseract_options \<Rightarrow> string + tesseract_data"

text \<open>What the code acts on outside its own variables: the files on disk, the calls made
  to the recognition engine so far, and the files that the operating system refuses to
  unlink (\<^verbatim>\<open>EPERM\<close>, \<^verbatim>\<open>EBUSY\<close>).\<close>

record world =
  files :: "path set"
  engine_calls :: "engine_call list"
  undeletable :: "path set"

definition supportedLanguages :: "string list" where
  "supportedLanguages =
     [''eng'', ''ara'', ''ben'', ''bul'', ''ces'', ''chi_sim'', ''chi_tra'', ''dan'',
      ''deu'', ''ell'', ''fin'', ''fra'', ''heb'', ''hin'', ''hun'', ''ind'', ''ita'',
      ''jpn'', ''kor'', ''nld'', ''nor'', ''pol'', ''por'', ''ron'', ''rus'', ''spa'',
      ''swe'', ''tha'', ''tur'', ''ukr'', ''vie'']"

text \<open>The validation loop: \<open>Some\<close> the message thrown at the first component that is
  not supported, \<open>None\<close> when the loop runs to its end.\<close>

fun validate_languages :: "string list \<Rightarrow> string option" where
  "validate_languages [] = None"
| "validate_languages (l # ls) =
     (if l \<notin> set supportedLanguages then Some (''Unsupported language: '' @ l)
      else validate_languages ls)"

definition make_tesseract_options :: "ocr_options \<Rightarrow> tesseract_options" where
  "make_tesseract_options options =
     \<lparr>lang = language options,
      t_oem = oem options,
      t_psm = psm options,
      preserve_interword_spaces = (if preserveInterword options then ''1'' else ''0''),
      tessedit_char_whitelist = (if whitelist options \<noteq> [] then Some (whitelist options) else None),
      tessedit_char_blacklist = (if blacklist options \<noteq> [] then Some (blacklist options) else None)\<rparr>"

record ocr_result =
  r_text :: string
  r_confidence :: real
  r_words :: "text_unit list"
  r_lines :: "text_unit list"
  r_paragraphs :: "text_unit list"
  r_blocks :: "text_unit list"

definition copy_unit :: "text_unit \<Rightarrow> text_unit" where
  "copy_unit u = \<lparr>u_text = u_text u, u_confidence = u_confidence u, u_bbox = u_bbox u\<rparr>"

definition extractTextFromImage ::
  "engine \<Rightarrow> path \<Rightarrow> ocr_options \<Rightarrow> world \<Rightarrow> (string + ocr_result) \<times> world" where
  "extractTextFromImage eng imagePath options w =
     (case validate_languages (js_split CHR ''+'' (language options)) of
        Some msg \<Rightarrow> (Inl (''OCR processing failed: '' @ msg), w)
      | None \<Rightarrow>
          (let tesseractOptions = make_tesseract_options options;
               w' = w\<lparr>engine_calls :=
                        engine_calls w @ [(imagePath, language options, tesseractOptions)]\<rparr>
           in case eng imagePath (language options) tesseractOptions of
                Inl msg \<Rightarrow> (Inl (''OCR processing failed: '' @ msg), w')
              | Inr data \<Rightarrow>
                  (Inr \<lparr>r_text = trim (d_text data),
                        r_confidence = d_confidence data,
                        r_words = map copy_unit (d_words data),
                        r_lines = map copy_unit (d_lines data),
                        r_paragraphs = map copy_unit (d_paragraphs data),
                        r_blocks = map copy_unit (d_blocks data)\<rparr>, w')))"

section \<open>pdfRoutes.js: class PDFService\<close>

text \<open>The rasterizer (\<^verbatim>\<open>pdf2pic\<close>) is an external collaborator: for a document and a
  density it either rejects (\<open>Inl\<close> the message, with the paths of the page images it had
  written before it failed), or resolves to the paths of the page images it wrote, one
  per page in page order.\<close>

type_synonym rasterizer = "path \<Rightarrow> int \<Rightarrow> (string \<times> path list) + path list"

record pdf_options = ocr_options +
  density :: int
  combinePages :: bool
  includePageNumbers :: bool

definition default_pdf_options :: pdf_options where
  "default_pdf_options =
     \<lparr>language = ''eng'', psm = ''3'', oem = ''3'', whitelist = '''', blacklist = '''',
      preserveInterword = False, density = 300, combinePages = True,
      includePageNumbers = True\<rparr>"

text \<open>An entry of \<^verbatim>\<open>pageResults\<close>. The fields \<^verbatim>\<open>words\<close>, \<^verbatim>\<open>lines\<close> and
  \<^verbatim>\<open>error\<close> are absent (\<open>None\<close>) on the objects that do not set them.\<close>

record page_result =
  pageNumber :: int
  p_text :: string
  p_confidence :: real
  wordCount :: nat
  lineCount :: nat
  p_words :: "text_unit list option"
  p_lines :: "text_unit list option"
  p_error :: "string option"

definition page_data :: "int \<Rightarrow> ocr_result \<Rightarrow> page_result" where
  "page_data n pageResult =
     \<lparr>pageNumber = n,
      p_text = r_text pageResult,
      p_confidence = r_confidence pageResult,
      wordCount = length (r_words pageResult),
      lineCount = length (r_lines pageResult),
      p_words = Some (r_words pageResult),
      p_lines = Some (r_lines pageResult),
      p_error = None\<rparr>"

definition failed_page :: "int \<Rightarrow> string \<Rightarrow> page_result" where
  "failed_page n message =
     \<lparr>pageNumber = n, p_text = '''', p_confidence = 0, wordCount = 0, lineCount = 0,
      p_words = None, p_lines = None, p_error = Some message\<rparr>"

text \<open>The truth value of \<^verbatim>\<open>p.error\<close>: an absent field and the empty string are falsy.\<close>

definition has_error :: "page_result \<Rightarrow> bool" where
  "has_error p = (case p_error p of None \<Rightarrow> False | Some message \<Rightarrow> message \<noteq> [])"

definition convertPdfToImages ::
  "rasterizer \<Rightarrow> path \<Rightarrow> int \<Rightarrow> world \<Rightarrow> (string + path list) \<times> world" where
  "convertPdfToImages rast pdfPath dens w =
     (case rast pdfPath dens of
        Inl (msg, written) \<Rightarrow>
          (Inl (''Failed to convert PDF to images: '' @ msg), w\<lparr>files := files w \<union> set written\<rparr>)
      | Inr imagePaths \<Rightarrow> (Inr imagePaths, w\<lparr>files := files w \<union> set imagePaths\<rparr>))"

text \<open>\<^verbatim>\<open>fs.unlinkSync\<close> throws when there is no such file and when the file cannot be
  unlinked; otherwise the file is gone.\<close>

definition unlinkSync :: "path \<Rightarrow> world \<Rightarrow> string + world" where
  "unlinkSync p w =
     (if p \<notin> files w then Inl (''ENOENT: no such file or directory, unlink '' @ p)
      else if p \<in> undeletable w then Inl (''EPERM: operation not permitted, unlink '' @ p)
      else Inr (w\<lparr>files := files w - {p}\<rparr>))"

text \<open>\<^verbatim>\<open>try { fs.unlinkSync(imagePath) } catch (cleanupError) { console.warn(...) }\<close>\<close>

definition cleanup_image :: "path \<Rightarrow> world \<Rightarrow> world" where
  "cleanup_image imagePath w = (case unlinkSync imagePath w of Inr w' \<Rightarrow> w' | Inl _ \<Rightarrow> w)"

record pdf_acc =
  pageResults :: "page_result list"
  combinedText :: string
  totalConfidence :: real
  totalWords :: nat

definition page_marker :: "nat \<Rightarrow> string" where
  "page_marker n =
     [CHR 0x0A, CHR 0x0A] @ ''--- Page '' @ string_of_nat n @ '' ---'' @ [CHR 0x0A, CHR 0x0A]"

text \<open>The body of the page loop of \<^verbatim>\<open>extractTextFromPdf\<close> for index \<open>i\<close>, up to the
  cleanup of the page image.\<close>

definition pdf_page_step ::
  "pdf_options \<Rightarrow> nat \<Rightarrow> string + ocr_result \<Rightarrow> pdf_acc \<Rightarrow> pdf_acc" where
  "pdf_page_step options i r acc =
     (case r of
        Inr pageResult \<Rightarrow>
          acc\<lparr>pageResults := pageResults acc @ [page_data (int i + 1) pageResult],
              combinedText :=
                (if combinePages options
                 then (if includePageNumbers options \<and> trim (r_text pageResult) \<noteq> []
                       then combinedText acc @ page_marker (i + 1)
                       else combinedText acc) @ r_text pageResult @ [CHR 0x0A]
                 else combinedText acc),
              totalConfidence := totalConfidence acc + r_confidence pageResult,
              totalWords := totalWords acc + length (r_words pageResult)\<rparr>
      | Inl message \<Rightarrow>
          acc\<lparr>pageResults := pageResults acc @ [failed_page (int i + 1) message]\<rparr>)"

fun pdf_page_loop ::
  "engine \<Rightarrow> pdf_options \<Rightarrow> nat \<Rightarrow> path list \<Rightarrow> pdf_acc \<Rightarrow> world \<Rightarrow> pdf_acc \<times> world" where
  "pdf_page_loop eng options i [] acc w = (acc, w)"
| "pdf_page_loop eng options i (imagePath # rest) acc w =
     (case extractTextFromImage eng imagePath (ocr_options.truncate options) w of
        (r, w1) \<Rightarrow>
          pdf_page_loop eng options (i + 1) rest (pdf_page_step options i r acc)
            (cleanup_image imagePath w1))"

record pdf_summary =
  totalPages :: nat
  s_totalWords :: nat
  averageConfidence :: real
  s_language :: string
  successfulPages :: nat
  failedPages :: nat

text \<open>The object \<^verbatim>\<open>extractTextFromPdf\<close> returns; \<open>pdf_text\<close> is \<open>None\<close> for
  \<^verbatim>\<open>null\<close>. The wall-clock field \<^verbatim>\<open>processingTime\<close> is left out.\<close>

record pdf_result =
  pdf_text :: "string option"
  pdf_pages :: "page_result list"
  pdf_summary :: pdf_summary

definition extractTextFromPdf ::
  "rasterizer \<Rightarrow> engine \<Rightarrow> path \<Rightarrow> pdf_options \<Rightarrow> world \<Rightarrow> (string + pdf_result) \<times> world" where
  "extractTextFromPdf rast eng pdfPath options w =
     (case convertPdfToImages rast pdfPath (density options) w of
        (Inl msg, w1) \<Rightarrow> (Inl (''PDF OCR processing failed: '' @ msg), w1)
      | (Inr imagePaths, w1) \<Rightarrow>
          (case pdf_page_loop eng options 0 imagePaths
                  \<lparr>pageResults = [], combinedText = '''', totalConfidence = 0, totalWords = 0\<rparr> w1 of
             (acc, w2) \<Rightarrow>
               (Inr \<lparr>pdf_text = (if combinePages options then Some (trim (combinedText acc)) else None),
                     pdf_pages = pageResults acc,
                     pdf_summary =
                       \<lparr>totalPages = length imagePaths,
                        s_totalWords = totalWords acc,
                        averageConfidence =
                          (if length imagePaths > 0
                           then totalConfidence acc / real (length imagePaths) else 0),
                        s_language = language options,
                        successfulPages = length (filter (\<lambda>p. \<not> has_error p) (pageResults acc)),
                        failedPages = length (filter (\<lambda>p. has_error p) (pageResults acc))\<rparr>\<rparr>,
                w2)))"

record sel_acc =
  sel_pageResults :: "page_result list"
  sel_totalConfidence :: real
  sel_totalWords :: nat

definition missing_page_message :: "int \<Rightarrow> nat \<Rightarrow> string" where
  "missing_page_message pageNum n =
     ''Page '' @ string_of_int pageNum @ '' does not exist. PDF has '' @ string_of_nat n @ '' pages.''"

definition sel_page_step :: "int \<Rightarrow> string + ocr_result \<Rightarrow> sel_acc \<Rightarrow> sel_acc" where
  "sel_page_step pageNum r acc =
     (case r of
        Inr pageResult \<Rightarrow>
          acc\<lparr>sel_pageResults := sel_pageResults acc @ [page_data pageNum pageResult],
              sel_totalConfidence := sel_totalConfidence acc + r_confidence pageResult,
              sel_totalWords := sel_totalWords acc + length (r_words pageResult)\<rparr>
      | Inl message \<Rightarrow>
          acc\<lparr>sel_pageResults := sel_pageResults acc @ [failed_page pageNum message]\<rparr>)"

fun sel_page_loop ::
  "engine \<Rightarrow> pdf_options \<Rightarrow> path list \<Rightarrow> int list \<Rightarrow> sel_acc \<Rightarrow> world \<Rightarrow> sel_acc \<times> world" where
  "sel_page_loop eng options allImagePaths [] acc w = (acc, w)"
| "sel_page_loop eng options allImagePaths (pageNum # rest) acc w =
     (let imageIndex = pageNum - 1 in
      if imageIndex < 0 \<or> imageIndex \<ge> int (length allImagePaths)
      then sel_page_loop eng options allImagePaths rest
             (acc\<lparr>sel_pageResults := sel_pageResults acc @
                    [failed_page pageNum (missing_page_message pageNum (length allImagePaths))]\<rparr>) w
      else (case extractTextFromImage eng (allImagePaths ! nat imageIndex)
                   (ocr_options.truncate options) w of
              (r, w1) \<Rightarrow>
                sel_page_loop eng options allImagePaths rest (sel_page_step pageNum r acc) w1))"

record pages_summary =
  requestedPages :: nat
  totalPagesInPdf :: nat
  ps_totalWords :: nat
  ps_averageConfidence :: real
  ps_language :: string
  ps_successfulPages :: nat
  ps_failedPages :: nat

record pages_result =
  sel_pages :: "page_result list"
  sel_summary :: pages_summary

definition extractTextFromPdfPages ::
  "rasterizer \<Rightarrow> engine \<Rightarrow> path \<Rightarrow> int list \<Rightarrow> pdf_options \<Rightarrow> world
     \<Rightarrow> (string + pages_result) \<times> world" where
  "extractTextFromPdfPages rast eng pdfPath pageNumbers options w =
     (case convertPdfToImages rast pdfPath (density options) w of
        (Inl msg, w1) \<Rightarrow> (Inl (''PDF selective OCR processing failed: '' @ msg), w1)
      | (Inr allImagePaths, w1) \<Rightarrow>
          (case sel_page_loop eng options allImagePaths pageNumbers
                  \<lparr>sel_pageResults = [], sel_totalConfidence = 0, sel_totalWords = 0\<rparr> w1 of
             (acc, w2) \<Rightarrow>
               (Inr \<lparr>sel_pages = sel_pageResults acc,
                     sel_summary =
                       \<lparr>requestedPages = length pageNumbers,
                        totalPagesInPdf = length allImagePaths,
                        ps_totalWords = sel_totalWords acc,
                        ps_averageConfidence =
                          (if length (sel_pageResults acc) > 0
                           then sel_totalConfidence acc / real (length (sel_pageResults acc))
                           else 0),
                        ps_language = language options,
                        ps_successfulPages =
                          length (filter (\<lambda>p. \<not> has_error p) (sel_pageResults acc)),
                        ps_failedPages =
                          length (filter (\<lambda>p. has_error p) (sel_pageResults acc))\<rparr>\<rparr>,
                fold cleanup_image allImagePaths w2)))"

section \<open>ocrController.js\<close>

text \<open>A field of \<^verbatim>\<open>req.body\<close>: absent, or one of the JSON values a body parser can
  produce for a flag. A multipart form yields strings only.\<close>

datatype body_value = Undefined | Null | Bool bool | Num real | Str string

text \<open>A destructuring default replaces \<^verbatim>\<open>undefined\<close> only.\<close>

definition default_to :: "body_value \<Rightarrow> body_value \<Rightarrow> body_value" where
  "default_to d v = (case v of Undefined \<Rightarrow> d | _ \<Rightarrow> v)"

definition default_str :: "string \<Rightarrow> string option \<Rightarrow> string" where
  "default_str d v = (case v of None \<Rightarrow> d | Some s \<Rightarrow> s)"

text \<open>\<^verbatim>\<open>v === 'true'\<close>: strict equality holds for the string \<^verbatim>\<open>'true'\<close> alone.\<close>

definition is_string_true :: "body_value \<Rightarrow> bool" where
  "is_string_true v = (case v of Str s \<Rightarrow> s = ''true'' | _ \<Rightarrow> False)"

record upload_file =
  f_path :: path
  originalname :: string
  f_size :: nat
  mimetype :: string

text \<open>A response: \<^verbatim>\<open>res.status(code).json({success: false, error, code})\<close> or
  \<^verbatim>\<open>res.json({success: true, data})\<close>. The timestamps of \<^verbatim>\<open>metadata\<close> and the
  measured processing time are left out.\<close>

datatype 'a response = ErrorResponse nat string string | SuccessResponse 'a

text \<open>The body of a detailed request. The recognition fields are strings when present.\<close>

record detailed_body =
  b_language :: "string option"
  b_psm :: "string option"
  b_oem :: "string option"
  b_includeWords :: body_value
  b_includeLines :: body_value
  b_includeParagraphs :: body_value
  b_includeBlocks :: body_value

record file_info =
  originalName :: string
  fi_size :: nat
  fi_mimetype :: string

record detailed_data =
  dd_text :: string
  dd_confidence :: real
  dd_language :: string
  dd_fileInfo :: file_info
  dd_words :: "text_unit list option"
  dd_lines :: "text_unit list option"
  dd_paragraphs :: "text_unit list option"
  dd_blocks :: "text_unit list option"

definition extractDetailedText ::
  "engine \<Rightarrow> upload_file option \<Rightarrow> detailed_body \<Rightarrow> world \<Rightarrow> detailed_data response \<times> world" where
  "extractDetailedText eng file body w =
     (let language = default_str ''eng'' (b_language body);
          psm = default_str ''3'' (b_psm body);
          oem = default_str ''3'' (b_oem body);
          includeWords = default_to (Bool True) (b_includeWords body);
          includeLines = default_to (Bool True) (b_includeLines body);
          includeParagraphs = default_to (Bool True) (b_includeParagraphs body);
          includeBlocks = default_to (Bool True) (b_includeBlocks body)
      in case file of
           None \<Rightarrow> (ErrorResponse 400 ''No file uploaded'' ''NO_FILE'', w)
         | Some f \<Rightarrow>
             (case extractTextFromImage eng (f_path f)
                     (default_ocr_options\<lparr>language := language, psm := psm, oem := oem\<rparr>) w of
                (Inl message, w1) \<Rightarrow> (ErrorResponse 500 message ''DETAILED_OCR_ERROR'', w1)
              | (Inr result, w1) \<Rightarrow>
                  (SuccessResponse
                     \<lparr>dd_text = r_text result,
                      dd_confidence = r_confidence result,
                      dd_language = language,
                      dd_fileInfo =
                        \<lparr>originalName = originalname f, fi_size = f_size f,
                         fi_mimetype = mimetype f\<rparr>,
                      dd_words = (if is_string_true includeWords then Some (r_words result) else None),
                      dd_lines = (if is_string_true includeLines then Some (r_lines result) else None),
                      dd_paragraphs =
                        (if is_string_true includeParagraphs then Some (r_paragraphs result) else None),
                      dd_blocks =
                        (if is_string_true includeBlocks then Some (r_blocks result) else None)\<rparr>,
                   w1)))"

record batch_body =
  bb_language :: "string option"
  bb_psm :: "string option"
  bb_oem :: "string option"

record batch_file_info =
  bf_originalName :: string
  bf_size :: nat
  bf_mimetype :: string
  index :: nat

record batch_data =
  bd_text :: string
  bd_confidence :: real
  bd_wordCount :: nat
  bd_lineCount :: nat

text \<open>An entry of \<^verbatim>\<open>results\<close>: \<open>item_data\<close> is set on the success object only and
  \<open>item_error\<close> on the failure object only.\<close>

record batch_item =
  success :: bool
  fileInfo :: batch_file_info
  item_data :: "batch_data option"
  item_error :: "string option"

definition batch_file_info :: "upload_file \<Rightarrow> nat \<Rightarrow> batch_file_info" where
  "batch_file_info file i =
     \<lparr>bf_originalName = originalname file, bf_size = f_size file, bf_mimetype = mimetype file,
      index = i\<rparr>"

text \<open>The \<^verbatim>\<open>try\<close>/\<^verbatim>\<open>catch\<close> of the batch loop for index \<open>i\<close>, given what the
  recognition call did.\<close>

definition batch_entry :: "upload_file \<Rightarrow> nat \<Rightarrow> string + ocr_result \<Rightarrow> batch_item" where
  "batch_entry file i r =
     (case r of
        Inr result \<Rightarrow>
          \<lparr>success = True,
           fileInfo = batch_file_info file i,
           item_data =
             Some \<lparr>bd_text = r_text result, bd_confidence = r_confidence result,
                   bd_wordCount = length (r_words result),
                   bd_lineCount = length (r_lines result)\<rparr>,
           item_error = None\<rparr>
      | Inl message \<Rightarrow>
          \<lparr>success = False, fileInfo = batch_file_info file i, item_data = None,
           item_error = Some message\<rparr>)"

fun batch_loop ::
  "engine \<Rightarrow> ocr_options \<Rightarrow> nat \<Rightarrow> upload_file list \<Rightarrow> batch_item list \<Rightarrow> world
     \<Rightarrow> batch_item list \<times> world" where
  "batch_loop eng options i [] results w = (results, w)"
| "batch_loop eng options i (file # rest) results w =
     (case extractTextFromImage eng (f_path file) options w of
        (r, w1) \<Rightarrow> batch_loop eng options (i + 1) rest (results @ [batch_entry file i r]) w1)"

record batch_summary =
  totalFiles :: nat
  successfulFiles :: nat
  failedFiles :: nat
  bs_language :: string

record batch_response =
  results :: "batch_item list"
  summary :: batch_summary

text \<open>\<open>uploaded\<close> is \<^verbatim>\<open>req.files\<close>, \<open>None\<close> when it is not set.\<close>

definition batchExtract ::
  "engine \<Rightarrow> upload_file list option \<Rightarrow> batch_body \<Rightarrow> world \<Rightarrow> batch_response response \<times> world" where
  "batchExtract eng uploaded body w =
     (let language = default_str ''eng'' (bb_language body);
          psm = default_str ''3'' (bb_psm body);
          oem = default_str ''3'' (bb_oem body)
      in case uploaded of
           None \<Rightarrow> (ErrorResponse 400 ''No files uploaded'' ''NO_FILES'', w)
         | Some fs \<Rightarrow>
             if length fs = 0 then (ErrorResponse 400 ''No files uploaded'' ''NO_FILES'', w)
             else
               (case batch_loop eng
                       (default_ocr_options\<lparr>language := language, psm := psm, oem := oem\<rparr>)
                       0 fs [] w of
                  (rs, w1) \<Rightarrow>
                    (let successCount = length (filter success rs)
                     in (SuccessResponse
                           \<lparr>results = rs,
                            summary =
                              \<lparr>totalFiles = length fs,
                               successfulFiles = successCount,
                               failedFiles = length fs - successCount,
                               bs_language = language\<rparr>\<rparr>,
                         w1))))"

section \<open>server.js: failures thrown outside the promise\<close>

text \<open>
  \<^verbatim>\<open>extractTextFromImage\<close> calls \<^verbatim>\<open>Tesseract.recognize\<close> with a \<^verbatim>\<open>logger\<close> only: the
  \<^verbatim>\<open>errorHandler\<close> that \<^verbatim>\<open>defaultOptions\<close> defines is not passed on. A failure that the
  engine's worker reports then rejects the promise and, for want of a handler, is also
  thrown from the library's own event handler, outside every \<^verbatim>\<open>try\<close> of this code. The
  \<^verbatim>\<open>uncaughtException\<close> handler of \<^verbatim>\<open>server.js\<close> answers it with \<^verbatim>\<open>process.exit(1)\<close>.

  A \<open>worker\<close> tells the three things a recognition can do apart: resolve, reject only,
  or reject and throw. An operation run in the process returns, or the process exits
  before it does. The definitions of this section follow the same code as the ones above
  and add the exit.
\<close>

datatype recognition = Resolves tesseract_data | Rejects string | Throws string

type_synonym worker = "path \<Rightarrow> string \<Rightarrow> tesseract_options \<Rightarrow> recognition"

datatype 'a run = Returned (returned: 'a) | ProcessExit

text \<open>How the promise settles under a worker: a failure that is thrown is a rejection too.\<close>

definition settled :: "worker \<Rightarrow> engine" where
  "settled wk imagePath l t =
     (case wk imagePath l t of
        Resolves data \<Rightarrow> Inr data
      | Rejects msg \<Rightarrow> Inl msg
      | Throws msg \<Rightarrow> Inl msg)"

text \<open>An engine seen as a worker that never throws.\<close>

definition worker_of :: "engine \<Rightarrow> worker" where
  "worker_of eng imagePath l t =
     (case eng imagePath l t of Inl msg \<Rightarrow> Rejects msg | Inr data \<Rightarrow> Resolves data)"

definition extractTextFromImage_process ::
  "worker \<Rightarrow> path \<Rightarrow> ocr_options \<Rightarrow> world \<Rightarrow> ((string + ocr_result) \<times> world) run" where
  "extractTextFromImage_process wk imagePath options w =
     (case validate_languages (js_split CHR ''+'' (language options)) of
        Some msg \<Rightarrow> Returned (extractTextFromImage (settled wk) imagePath options w)
      | None \<Rightarrow>
          (case wk imagePath (language options) (make_tesseract_options options) of
             Throws msg \<Rightarrow> ProcessExit
           | Rejects msg \<Rightarrow> Returned (extractTextFromImage (settled wk) imagePath options w)
           | Resolves data \<Rightarrow> Returned (extractTextFromImage (settled wk) imagePath options w)))"

fun pdf_page_loop_process ::
  "worker \<Rightarrow> pdf_options \<Rightarrow> nat \<Rightarrow> path list \<Rightarrow> pdf_acc \<Rightarrow> world \<Rightarrow> (pdf_acc \<times> world) run" where
  "pdf_page_loop_process wk options i [] acc w = Returned (acc, w)"
| "pdf_page_loop_process wk options i (imagePath # rest) acc w =
     (case extractTextFromImage_process wk imagePath (ocr_options.truncate options) w of
        ProcessExit \<Rightarrow> ProcessExit
      | Returned (r, w1) \<Rightarrow>
          pdf_page_loop_process wk options (i + 1) rest (pdf_page_step options i r acc)
            (cleanup_image imagePath w1))"

definition extractTextFromPdf_process ::
  "rasterizer \<Rightarrow> worker \<Rightarrow> path \<Rightarrow> pdf_options \<Rightarrow> world \<Rightarrow> ((string + pdf_result) \<times> world) run" where
  "extractTextFromPdf_process rast wk pdfPath options w =
     (case convertPdfToImages rast pdfPath (density options) w of
        (Inl msg, w1) \<Rightarrow> Returned (Inl (''PDF OCR processing failed: '' @ msg), w1)
      | (Inr imagePaths, w1) \<Rightarrow>
          (case pdf_page_loop_process wk options 0 imagePaths
                  \<lparr>pageResults = [], combinedText = '''', totalConfidence = 0, totalWords = 0\<rparr> w1 of
             ProcessExit \<Rightarrow> ProcessExit
           | Returned (acc, w2) \<Rightarrow>
               Returned
                 (Inr \<lparr>pdf_text = (if combinePages options then Some (trim (combinedText acc)) else None),
                       pdf_pages = pageResults acc,
                       pdf_summary =
                         \<lparr>totalPages = length imagePaths,
                          s_totalWords = totalWords acc,
                          averageConfidence =
                            (if length imagePaths > 0
                             then totalConfidence acc / real (length imagePaths) else 0),
                          s_language = language options,
                          successfulPages = length (filter (\<lambda>p. \<not> has_error p) (pageResults acc)),
                          failedPages = length (filter (\<lambda>p. has_error p) (pageResults acc))\<rparr>\<rparr>,
                  w2)))"

fun sel_page_loop_process ::
  "worker \<Rightarrow> pdf_options \<Rightarrow> path list \<Rightarrow> int list \<Rightarrow> sel_acc \<Rightarrow> world \<Rightarrow> (sel_acc \<times> world) run" where
  "sel_page_loop_process wk options allImagePaths [] acc w = Returned (acc, w)"
| "sel_page_loop_process wk options allImagePaths (pageNum # rest) acc w =
     (let imageIndex = pageNum - 1 in
      if imageIndex < 0 \<or> imageIndex \<ge> int (length allImagePaths)
      then sel_page_loop_process wk options allImagePaths rest
             (acc\<lparr>sel_pageResults := sel_pageResults acc @
                    [failed_page pageNum (missing_page_message pageNum (length allImagePaths))]\<rparr>) w
      else (case extractTextFromImage_process wk (allImagePaths ! nat imageIndex)
                   (ocr_options.truncate options) w of
              ProcessExit \<Rightarrow> ProcessExit
            | Returned (r, w1) \<Rightarrow>
                sel_page_loop_process wk options allImagePaths rest
                  (sel_page_step pageNum r acc) w1))"

definition extractTextFromPdfPages_process ::
  "rasterizer \<Rightarrow> worker \<Rightarrow> path \<Rightarrow> int list \<Rightarrow> pdf_options \<Rightarrow> world
     \<Rightarrow> ((string + pages_result) \<times> world) run" where
  "extractTextFromPdfPages_process rast wk pdfPath pageNumbers options w =
     (case convertPdfToImages rast pdfPath (density options) w of
        (Inl msg, w1) \<Rightarrow> Returned (Inl (''PDF selective OCR processing failed: '' @ msg), w1)
      | (Inr allImagePaths, w1) \<Rightarrow>
          (case sel_page_loop_process wk options allImagePaths pageNumbers
                  \<lparr>sel_pageResults = [], sel_totalConfidence = 0, sel_totalWords = 0\<rparr> w1 of
             ProcessExit \<Rightarrow> ProcessExit
           | Returned (acc, w2) \<Rightarrow>
               Returned
                 (Inr \<lparr>sel_pages = sel_pageResults acc,
                       sel_summary =
                         \<lparr>requestedPages = length pageNumbers,
                          totalPagesInPdf = length allImagePaths,
                          ps_totalWords = sel_totalWords acc,
                          ps_averageConfidence =
                            (if length (sel_pageResults acc) > 0
                             then sel_totalConfidence acc / real (length (sel_pageResults acc))
                             else 0),
                          ps_language = language options,
                          ps_successfulPages =
                            length (filter (\<lambda>p. \<not> has_error p) (sel_pageResults acc)),
                          ps_failedPages =
                            length (filter (\<lambda>p. has_error p) (sel_pageResults acc))\<rparr>\<rparr>,
                  fold cleanup_image allImagePaths w2)))"

fun batch_loop_process ::
  "worker \<Rightarrow> ocr_options \<Rightarrow> nat \<Rightarrow> upload_file list \<Rightarrow> batch_item list \<Rightarrow> world
     \<Rightarrow> (batch_item list \<times> world) run" where
  "batch_loop_process wk options i [] rs w = Returned (rs, w)"
| "batch_loop_process wk options i (file # rest) rs w =
     (case extractTextFromImage_process wk (f_path file) options w of
        ProcessExit \<Rightarrow> ProcessExit
      | Returned (r, w1) \<Rightarrow>
          batch_loop_process wk options (i + 1) rest (rs @ [batch_entry file i r]) w1)"

definition batchExtract_process ::
  "worker \<Rightarrow> upload_file list option \<Rightarrow> batch_body \<Rightarrow> world
     \<Rightarrow> (batch_response response \<times> world) run" where
  "batchExtract_process wk uploaded body w =
     (let language = default_str ''eng'' (bb_language body);
          psm = default_str ''3'' (bb_psm body);
          oem = default_str ''3'' (bb_oem body)
      in case uploaded of
           None \<Rightarrow> Returned (ErrorResponse 400 ''No files uploaded'' ''NO_FILES'', w)
         | Some fs \<Rightarrow>
             if length fs = 0 then Returned (ErrorResponse 400 ''No files uploaded'' ''NO_FILES'', w)
             else
               (case batch_loop_process wk
                       (default_ocr_options\<lparr>language := language, psm := psm, oem := oem\<rparr>)
                       0 fs [] w of
                  ProcessExit \<Rightarrow> ProcessExit
                | Returned (rs, w1) \<Rightarrow>
                    (let successCount = length (filter success rs)
                     in Returned
                          (SuccessResponse
                             \<lparr>results = rs,
                              summary =
                                \<lparr>totalFiles = length fs,
                                 successfulFiles = successCount,
                                 failedFiles = length fs - successCount,
                                 bs_language = language\<rparr>\<rparr>,
                           w1))))"

section \<open>Notions used to state the properties\<close>

text \<open>The \<^verbatim>\<open>options\<close> object of \<open>batchExtract\<close>, as the definition above builds it.\<close>

definition batch_options :: "batch_body \<Rightarrow> ocr_options" where
  "batch_options body =
     default_ocr_options\<lparr>language := default_str ''eng'' (bb_language body),
       psm := default_str ''3'' (bb_psm body), oem := default_str ''3'' (bb_oem body)\<rparr>"

text \<open>What a recognised page adds to the combined text when page numbers are requested:
  the marker with its blank lines when the trimmed page text is not empty, the page
  text, a line feed.\<close>

definition marked_page_text :: "page_result \<Rightarrow> string" where
  "marked_page_text p =
     (if trim (p_text p) \<noteq> [] then page_marker (nat (pageNumber p)) else []) @
     p_text p @ [CHR 0x0A]"

text \<open>The combined text in the words of the specification: the page texts concatenated
  in document order, the literal marker \<^verbatim>\<open>--- Page N ---\<close> put before page \<open>N\<close> exactly
  when its trimmed text is not empty.\<close>

definition spec_combined_text :: "page_result list \<Rightarrow> string" where
  "spec_combined_text pages =
     concat (map (\<lambda>p. (if trim (p_text p) \<noteq> []
                        then ''--- Page '' @ string_of_int (pageNumber p) @ '' ---'' else []) @
                       p_text p) pages)"

text \<open>The outcome \<open>extractTextFromPdfPages\<close> records for one requested page number: it
  depends on that number, the page images and the engine only.\<close>

definition requested_page_outcome ::
  "engine \<Rightarrow> pdf_options \<Rightarrow> path list \<Rightarrow> int \<Rightarrow> page_result" where
  "requested_page_outcome eng options allImagePaths pageNum =
     (if pageNum - 1 < 0 \<or> pageNum - 1 \<ge> int (length allImagePaths)
      then failed_page pageNum (missing_page_message pageNum (length allImagePaths))
      else (case fst (extractTextFromImage eng (allImagePaths ! nat (pageNum - 1))
                        (ocr_options.truncate options) \<lparr>files = {}, engine_calls = [], undeletable = {}\<rparr>) of
              Inr pageResult \<Rightarrow> page_data pageNum pageResult
            | Inl message \<Rightarrow> failed_page pageNum message))"

section \<open>A concrete run\<close>

text \<open>An engine, a rasterizer and a starting state on which the functions above are
  evaluated: a document of three pages whose second page the engine rejects, and a
  document \<^verbatim>\<open>broken.pdf\<close> on which the rasterizer writes the first page image and then
  rejects.\<close>

definition demo_unit :: text_unit where
  "demo_unit = \<lparr>u_text = ''a'', u_confidence = 90, u_bbox = \<lparr>x0 = 0, y0 = 0, x1 = 12, y1 = 20\<rparr>\<rparr>"

definition demo_engine :: engine where
  "demo_engine imagePath l t =
     (if imagePath = ''bad.png'' then Inl ''Error attempting to read image.''
      else Inr \<lparr>d_text = '' a '',
                d_confidence = (if imagePath = ''page1.png'' then 80 else 100),
                d_words = [demo_unit], d_lines = [demo_unit], d_paragraphs = [demo_unit],
                d_blocks = [demo_unit]\<rparr>)"

definition demo_rasterizer :: rasterizer where
  "demo_rasterizer pdfPath dens =
     (if pdfPath = ''broken.pdf'' then Inl (''Unable to render'', [''page1.png''])
      else Inr [''page1.png'', ''bad.png'', ''page3.png''])"

definition demo_world :: world where
  "demo_world = \<lparr>files = {''upload.pdf''}, engine_calls = [], undeletable = {}\<rparr>"

text \<open>Three uploads for the batch operation: the second is the image the engine rejects.\<close>

definition demo_uploads :: "upload_file list" where
  "demo_uploads =
     [\<lparr>f_path = ''page1.png'', originalname = ''A.png'', f_size = 10, mimetype = ''image/png''\<rparr>,
      \<lparr>f_path = ''bad.png'', originalname = ''B.png'', f_size = 20, mimetype = ''image/png''\<rparr>,
      \<lparr>f_path = ''page3.png'', originalname = ''C.png'', f_size = 30, mimetype = ''image/png''\<rparr>]"

definition demo_batch_body :: batch_body where
  "demo_batch_body = \<lparr>bb_language = None, bb_psm = None, bb_oem = None\<rparr>"

text \<open>The worker behind \<open>demo_engine\<close> when the failure on the second image is one that
  the engine's worker reports, and a starting state in which the image of the third page
  cannot be unlinked.\<close>

definition demo_worker :: worker where
  "demo_worker imagePath l t =
     (case demo_engine imagePath l t of
        Inl msg \<Rightarrow> Throws msg
      | Inr data \<Rightarrow> Resolves data)"

definition demo_locked_world :: world where
  "demo_locked_world =
     \<lparr>files = {''upload.pdf''}, engine_calls = [], undeletable = {''page3.png''}\<rparr>"

section \<open>Language validation\<close>

lemma validate_languages_None:
  "(validate_languages ls = None) = (\<forall>l\<in>set ls. l \<in> set supportedLanguages)"
  by (induction ls) auto

lemma validate_languages_Some:
  "validate_languages ls = Some msg \<Longrightarrow>
     \<exists>l\<in>set ls. l \<notin> set supportedLanguages \<and> msg = ''Unsupported language: '' @ l"
  by (induction ls) (auto split: if_splits)

text \<open>
  Claim C9. When a component of the language tag, split on \<open>+\<close>, is not a supported
  language, \<open>extractTextFromImage\<close> throws the unsupported-language error for such a
  component and the engine has not been called (the state is the one it started from).
  When every component is supported, the engine is called: exactly one call, with the
  image path, the language tag and the engine options, is added to the calls made.
\<close>

theorem extractTextFromImage_language_validation:
  "((\<exists>l\<in>set (js_split CHR ''+'' (language options)). l \<notin> set supportedLanguages) \<longrightarrow>
      (\<exists>l\<in>set (js_split CHR ''+'' (language options)). l \<notin> set supportedLanguages \<and>
         extractTextFromImage eng imagePath options w =
           (Inl (''OCR processing failed: Unsupported language: '' @ l), w)))
   \<and> ((\<forall>l\<in>set (js_split CHR ''+'' (language options)). l \<in> set supportedLanguages) \<longrightarrow>
      snd (extractTextFromImage eng imagePath options w) =
        w\<lparr>engine_calls := engine_calls w @
             [(imagePath, language options, make_tesseract_options options)]\<rparr>)"
proof (cases "validate_languages (js_split CHR ''+'' (language options))")
  case None
  then have "\<forall>l\<in>set (js_split CHR ''+'' (language options)). l \<in> set supportedLanguages"
    by (simp add: validate_languages_None)
  moreover have "snd (extractTextFromImage eng imagePath options w) =
        w\<lparr>engine_calls := engine_calls w @
             [(imagePath, language options, make_tesseract_options options)]\<rparr>"
    using None by (simp add: extractTextFromImage_def Let_def split: sum.splits)
  ultimately show ?thesis by blast
next
  case (Some msg)
  from validate_languages_Some [OF Some] obtain l where
    l: "l \<in> set (js_split CHR ''+'' (language options))" "l \<notin> set supportedLanguages"
       "msg = ''Unsupported language: '' @ l" by blast
  have "extractTextFromImage eng imagePath options w =
           (Inl (''OCR processing failed: Unsupported language: '' @ l), w)"
    using Some l(3) by (simp add: extractTextFromImage_def)
  with l show ?thesis by blast
qed

theorem extractTextFromImage_language_validation_witness:
  "extractTextFromImage demo_engine ''scan.png''
     (default_ocr_options\<lparr>language := ''eng+xyz''\<rparr>) demo_world =
     (Inl ''OCR processing failed: Unsupported language: xyz'', demo_world)
   \<and> snd (extractTextFromImage demo_engine ''scan.png''
            (default_ocr_options\<lparr>language := ''eng+fra''\<rparr>) demo_world) =
       demo_world\<lparr>engine_calls :=
         [(''scan.png'', ''eng+fra'',
           make_tesseract_options (default_ocr_options\<lparr>language := ''eng+fra''\<rparr>))]\<rparr>"
proof -
  have bad: "\<exists>l\<in>set (js_split CHR ''+'' (language (default_ocr_options\<lparr>language := ''eng+xyz''\<rparr>))).
        l \<notin> set supportedLanguages"
    by (simp add: supportedLanguages_def)
  have good: "\<forall>l\<in>set (js_split CHR ''+'' (language (default_ocr_options\<lparr>language := ''eng+fra''\<rparr>))).
        l \<in> set supportedLanguages"
    by (simp add: supportedLanguages_def)
  from bad
    extractTextFromImage_language_validation
      [of "default_ocr_options\<lparr>language := ''eng+xyz''\<rparr>" demo_engine "''scan.png''" demo_world]
  have "\<exists>l\<in>set (js_split CHR ''+'' (language (default_ocr_options\<lparr>language := ''eng+xyz''\<rparr>))).
        l \<notin> set supportedLanguages \<and>
        extractTextFromImage demo_engine ''scan.png''
          (default_ocr_options\<lparr>language := ''eng+xyz''\<rparr>) demo_world =
          (Inl (''OCR processing failed: Unsupported language: '' @ l), demo_world)"
    by blast
  then have first: "extractTextFromImage demo_engine ''scan.png''
     (default_ocr_options\<lparr>language := ''eng+xyz''\<rparr>) demo_world =
     (Inl ''OCR processing failed: Unsupported language: xyz'', demo_world)"
    by (auto simp: supportedLanguages_def)
  from good
    extractTextFromImage_language_validation
      [of "default_ocr_options\<lparr>language := ''eng+fra''\<rparr>" demo_engine "''scan.png''" demo_world]
  have "snd (extractTextFromImage demo_engine ''scan.png''
             (default_ocr_options\<lparr>language := ''eng+fra''\<rparr>) demo_world) =
        demo_world\<lparr>engine_calls := engine_calls demo_world @
          [(''scan.png'', language (default_ocr_options\<lparr>language := ''eng+fra''\<rparr>),
            make_tesseract_options (default_ocr_options\<lparr>language := ''eng+fra''\<rparr>))]\<rparr>"
    by blast
  then have "snd (extractTextFromImage demo_engine ''scan.png''
            (default_ocr_options\<lparr>language := ''eng+fra''\<rparr>) demo_world) =
       demo_world\<lparr>engine_calls :=
         [(''scan.png'', ''eng+fra'',
           make_tesseract_options (default_ocr_options\<lparr>language := ''eng+fra''\<rparr>))]\<rparr>"
    by (simp add: demo_world_def)
  with first show ?thesis by simp
qed

section \<open>Files on disk\<close>

lemma extractTextFromImage_result_indep:
  "fst (extractTextFromImage eng imagePath options w) =
   fst (extractTextFromImage eng imagePath options w')"
  by (simp add: extractTextFromImage_def Let_def split: option.splits sum.splits)

lemma extractTextFromImage_message_nonempty:
  "fst (extractTextFromImage eng imagePath options w) = Inl message \<Longrightarrow> message \<noteq> []"
  by (auto simp: extractTextFromImage_def Let_def split: option.splits sum.splits)

lemma extractTextFromImage_disk:
  "files (snd (extractTextFromImage eng imagePath options w)) = files w"
  "undeletable (snd (extractTextFromImage eng imagePath options w)) = undeletable w"
  by (simp_all add: extractTextFromImage_def Let_def split: option.splits sum.splits)

lemma cleanup_image_disk:
  "files (cleanup_image imagePath w) = files w - ({imagePath} - undeletable w)"
  "undeletable (cleanup_image imagePath w) = undeletable w"
  by (auto simp: cleanup_image_def unlinkSync_def)

lemma pdf_page_loop_disk:
  "files (snd (pdf_page_loop eng options i imagePaths acc w)) =
     files w - (set imagePaths - undeletable w)
   \<and> undeletable (snd (pdf_page_loop eng options i imagePaths acc w)) = undeletable w"
proof (induction imagePaths arbitrary: i acc w)
  case Nil
  show ?case by simp
next
  case (Cons imagePath rest)
  obtain r w1 where step: "extractTextFromImage eng imagePath (ocr_options.truncate options) w = (r, w1)"
    by (cases "extractTextFromImage eng imagePath (ocr_options.truncate options) w")
  then have w1: "files w1 = files w" "undeletable w1 = undeletable w"
    using extractTextFromImage_disk [of eng imagePath "ocr_options.truncate options" w] by simp_all
  have "files (cleanup_image imagePath w1) = files w - ({imagePath} - undeletable w)"
    "undeletable (cleanup_image imagePath w1) = undeletable w"
    using w1 by (simp_all add: cleanup_image_disk)
  with step Cons.IH [of "i + 1" "pdf_page_step options i r acc" "cleanup_image imagePath w1"]
  show ?case by auto
qed

lemma fold_cleanup_image_disk:
  "files (fold cleanup_image imagePaths w) = files w - (set imagePaths - undeletable w)
   \<and> undeletable (fold cleanup_image imagePaths w) = undeletable w"
proof (induction imagePaths arbitrary: w)
  case Nil
  show ?case by simp
next
  case (Cons imagePath rest)
  from Cons.IH [of "cleanup_image imagePath w"] show ?case
    by (auto simp: cleanup_image_disk)
qed

lemma sel_page_loop_disk:
  "files (snd (sel_page_loop eng options allImagePaths pageNumbers acc w)) = files w
   \<and> undeletable (snd (sel_page_loop eng options allImagePaths pageNumbers acc w)) = undeletable w"
proof (induction pageNumbers arbitrary: acc w)
  case Nil
  show ?case by simp
next
  case (Cons pageNum rest)
  show ?case
  proof (cases "pageNum - 1 < 0 \<or> pageNum - 1 \<ge> int (length allImagePaths)")
    case True
    then show ?thesis using Cons.IH by (simp add: Let_def)
  next
    case False
    obtain r w1 where step:
      "extractTextFromImage eng (allImagePaths ! nat (pageNum - 1)) (ocr_options.truncate options) w = (r, w1)"
      by (cases "extractTextFromImage eng (allImagePaths ! nat (pageNum - 1)) (ocr_options.truncate options) w")
    then have "files w1 = files w" "undeletable w1 = undeletable w"
      using extractTextFromImage_disk
        [of eng "allImagePaths ! nat (pageNum - 1)" "ocr_options.truncate options" w] by simp_all
    with False step Cons.IH [of "sel_page_step pageNum r acc" w1] show ?thesis
      by (simp add: Let_def)
  qed
qed

text \<open>The files left by the two document operations, on the path that returns a report
  and on the path that returns the conversion error.\<close>

lemma extractTextFromPdf_disk:
  "rast pdfPath (density options) = Inr imagePaths \<Longrightarrow>
     files (snd (extractTextFromPdf rast eng pdfPath options w)) =
       (files w \<union> set imagePaths) - (set imagePaths - undeletable w)"
  "rast pdfPath (density options) = Inl (msg, written) \<Longrightarrow>
     extractTextFromPdf rast eng pdfPath options w =
       (Inl (''PDF OCR processing failed: Failed to convert PDF to images: '' @ msg),
        w\<lparr>files := files w \<union> set written\<rparr>)"
proof -
  assume ok: "rast pdfPath (density options) = Inr imagePaths"
  define w1 where "w1 = w\<lparr>files := files w \<union> set imagePaths\<rparr>"
  have conv: "convertPdfToImages rast pdfPath (density options) w = (Inr imagePaths, w1)"
    using ok by (simp add: convertPdfToImages_def w1_def)
  obtain acc w2 where loop:
    "pdf_page_loop eng options 0 imagePaths
       \<lparr>pageResults = [], combinedText = '''', totalConfidence = 0, totalWords = 0\<rparr> w1 = (acc, w2)"
    by (cases "pdf_page_loop eng options 0 imagePaths
       \<lparr>pageResults = [], combinedText = '''', totalConfidence = 0, totalWords = 0\<rparr> w1")
  have "files w2 = files w1 - (set imagePaths - undeletable w1)"
    using pdf_page_loop_disk [of eng options 0 imagePaths
       "\<lparr>pageResults = [], combinedText = '''', totalConfidence = 0, totalWords = 0\<rparr>" w1] loop
    by simp
  then show "files (snd (extractTextFromPdf rast eng pdfPath options w)) =
       (files w \<union> set imagePaths) - (set imagePaths - undeletable w)"
    using conv loop by (simp add: extractTextFromPdf_def w1_def)
next
  assume "rast pdfPath (density options) = Inl (msg, written)"
  then show "extractTextFromPdf rast eng pdfPath options w =
       (Inl (''PDF OCR processing failed: Failed to convert PDF to images: '' @ msg),
        w\<lparr>files := files w \<union> set written\<rparr>)"
    by (simp add: extractTextFromPdf_def convertPdfToImages_def)
qed

lemma extractTextFromPdfPages_disk:
  "rast pdfPath (density options) = Inr imagePaths \<Longrightarrow>
     files (snd (extractTextFromPdfPages rast eng pdfPath pageNumbers options w)) =
       (files w \<union> set imagePaths) - (set imagePaths - undeletable w)"
  "rast pdfPath (density options) = Inl (msg, written) \<Longrightarrow>
     extractTextFromPdfPages rast eng pdfPath pageNumbers options w =
       (Inl (''PDF selective OCR processing failed: Failed to convert PDF to images: '' @ msg),
        w\<lparr>files := files w \<union> set written\<rparr>)"
proof -
  assume ok: "rast pdfPath (density options) = Inr imagePaths"
  define w1 where "w1 = w\<lparr>files := files w \<union> set imagePaths\<rparr>"
  have conv: "convertPdfToImages rast pdfPath (density options) w = (Inr imagePaths, w1)"
    using ok by (simp add: convertPdfToImages_def w1_def)
  obtain acc w2 where loop:
    "sel_page_loop eng options imagePaths pageNumbers
       \<lparr>sel_pageResults = [], sel_totalConfidence = 0, sel_totalWords = 0\<rparr> w1 = (acc, w2)"
    by (cases "sel_page_loop eng options imagePaths pageNumbers
       \<lparr>sel_pageResults = [], sel_totalConfidence = 0, sel_totalWords = 0\<rparr> w1")
  have "files w2 = files w1" "undeletable w2 = undeletable w1"
    using sel_page_loop_disk [of eng options imagePaths pageNumbers
       "\<lparr>sel_pageResults = [], sel_totalConfidence = 0, sel_totalWords = 0\<rparr>" w1] loop
    by simp_all
  then show "files (snd (extractTextFromPdfPages rast eng pdfPath pageNumbers options w)) =
       (files w \<union> set imagePaths) - (set imagePaths - undeletable w)"
    using conv loop by (simp add: extractTextFromPdfPages_def fold_cleanup_image_disk w1_def)
next
  assume "rast pdfPath (density options) = Inl (msg, written)"
  then show "extractTextFromPdfPages rast eng pdfPath pageNumbers options w =
       (Inl (''PDF selective OCR processing failed: Failed to convert PDF to images: '' @ msg),
        w\<lparr>files := files w \<union> set written\<rparr>)"
    by (simp add: extractTextFromPdfPages_def convertPdfToImages_def)
qed

section \<open>Page outcomes of the two document loops\<close>

lemma pdf_page_step_pages:
  "pageResults (pdf_page_step options i r acc) =
     pageResults acc @
       [case r of Inr pageResult \<Rightarrow> page_data (int i + 1) pageResult
        | Inl message \<Rightarrow> failed_page (int i + 1) message]"
  by (simp add: pdf_page_step_def split: sum.splits)

lemma sel_page_step_pages:
  "sel_pageResults (sel_page_step pageNum r acc) =
     sel_pageResults acc @
       [case r of Inr pageResult \<Rightarrow> page_data pageNum pageResult
        | Inl message \<Rightarrow> failed_page pageNum message]"
  by (simp add: sel_page_step_def split: sum.splits)

lemma pageNumber_entry [simp]:
  "pageNumber (case r of Inr pageResult \<Rightarrow> page_data n pageResult
               | Inl message \<Rightarrow> failed_page n message) = n"
  by (simp add: page_data_def failed_page_def split: sum.splits)

lemma pdf_page_loop_numbers:
  "map pageNumber (pageResults (fst (pdf_page_loop eng options i imagePaths acc w))) =
     map pageNumber (pageResults acc) @ map int [Suc i..<Suc (i + length imagePaths)]"
proof (induction imagePaths arbitrary: i acc w)
  case Nil
  show ?case by simp
next
  case (Cons imagePath rest)
  obtain r w1 where step:
    "extractTextFromImage eng imagePath (ocr_options.truncate options) w = (r, w1)"
    by (cases "extractTextFromImage eng imagePath (ocr_options.truncate options) w")
  have "[Suc i..<Suc (i + length (imagePath # rest))] =
          Suc i # [Suc (Suc i)..<Suc (Suc i + length rest)]"
    using upt_conv_Cons [of "Suc i" "Suc (i + length (imagePath # rest))"] by simp
  then show ?case
    using step Cons.IH [of "Suc i" "pdf_page_step options i r acc" "cleanup_image imagePath w1"]
    by (simp add: pdf_page_step_pages)
qed

lemma sel_page_loop_numbers:
  "map pageNumber (sel_pageResults (fst (sel_page_loop eng options allImagePaths pageNumbers acc w))) =
     map pageNumber (sel_pageResults acc) @ pageNumbers"
proof (induction pageNumbers arbitrary: acc w)
  case Nil
  show ?case by simp
next
  case (Cons pageNum rest)
  show ?case
  proof (cases "pageNum - 1 < 0 \<or> pageNum - 1 \<ge> int (length allImagePaths)")
    case True
    then show ?thesis
      using Cons.IH by (simp add: Let_def failed_page_def)
  next
    case False
    obtain r w1 where step:
      "extractTextFromImage eng (allImagePaths ! nat (pageNum - 1)) (ocr_options.truncate options) w = (r, w1)"
      by (cases "extractTextFromImage eng (allImagePaths ! nat (pageNum - 1)) (ocr_options.truncate options) w")
    with False show ?thesis
      using Cons.IH [of "sel_page_step pageNum r acc" w1]
      by (simp add: Let_def sel_page_step_pages)
  qed
qed

text \<open>Both operations return a report whenever the rasterizer resolves.\<close>

lemma extractTextFromPdf_returns:
  assumes "rast pdfPath (density options) = Inr imagePaths"
  shows "\<exists>r. fst (extractTextFromPdf rast eng pdfPath options w) = Inr r \<and>
             pdf_pages r = pageResults (fst (pdf_page_loop eng options 0 imagePaths
               \<lparr>pageResults = [], combinedText = '''', totalConfidence = 0, totalWords = 0\<rparr>
               (w\<lparr>files := files w \<union> set imagePaths\<rparr>))) \<and>
             totalPages (pdf_summary r) = length imagePaths"
  using assms
  by (simp add: extractTextFromPdf_def convertPdfToImages_def split: prod.splits)

lemma extractTextFromPdfPages_returns:
  assumes "rast pdfPath (density options) = Inr allImagePaths"
  shows "\<exists>r. fst (extractTextFromPdfPages rast eng pdfPath pageNumbers options w) = Inr r \<and>
             sel_pages r = sel_pageResults (fst (sel_page_loop eng options allImagePaths pageNumbers
               \<lparr>sel_pageResults = [], sel_totalConfidence = 0, sel_totalWords = 0\<rparr>
               (w\<lparr>files := files w \<union> set allImagePaths\<rparr>))) \<and>
             totalPagesInPdf (sel_summary r) = length allImagePaths"
  using assms
  by (simp add: extractTextFromPdfPages_def convertPdfToImages_def split: prod.splits)

text \<open>
  Claim C8. When the rasterizer resolves, \<open>extractTextFromPdfPages\<close> returns one outcome
  per requested page number, in the order of the request, duplicates included: the page
  numbers of the outcomes, read in order, are the requested list. The outcomes of
  \<open>extractTextFromPdf\<close> are in document order: their page numbers are 1, 2, ... up to
  the number of pages.
\<close>

theorem page_outcome_order:
  assumes "rast pdfPath (density options) = Inr allImagePaths"
  shows "(\<exists>r. fst (extractTextFromPdfPages rast eng pdfPath pageNumbers options w) = Inr r \<and>
              map pageNumber (sel_pages r) = pageNumbers)
       \<and> (\<exists>r. fst (extractTextFromPdf rast eng pdfPath options w) = Inr r \<and>
              map pageNumber (pdf_pages r) = map int [1..<Suc (length allImagePaths)])"
proof -
  from assms extractTextFromPdfPages_returns
    [where rast = rast and pdfPath = pdfPath and options = options and eng = eng
       and pageNumbers = pageNumbers and w = w and allImagePaths = allImagePaths]
  have "\<exists>r. fst (extractTextFromPdfPages rast eng pdfPath pageNumbers options w) = Inr r \<and>
              map pageNumber (sel_pages r) = pageNumbers"
    by (auto simp: sel_page_loop_numbers)
  moreover have "\<exists>r. fst (extractTextFromPdf rast eng pdfPath options w) = Inr r \<and>
              map pageNumber (pdf_pages r) = map int [1..<Suc (length allImagePaths)]"
  proof -
    from assms extractTextFromPdf_returns
      [where rast = rast and pdfPath = pdfPath and options = options and eng = eng
         and w = w and imagePaths = allImagePaths]
    obtain r where r: "fst (extractTextFromPdf rast eng pdfPath options w) = Inr r"
      and pages: "pdf_pages r = pageResults (fst (pdf_page_loop eng options 0 allImagePaths
               \<lparr>pageResults = [], combinedText = [], totalConfidence = 0, totalWords = 0\<rparr>
               (w\<lparr>files := files w \<union> set allImagePaths\<rparr>)))"
      by blast
    have "map pageNumber (pdf_pages r) = map int [Suc 0..<Suc (0 + length allImagePaths)]"
      unfolding pages pdf_page_loop_numbers by simp
    then have "map pageNumber (pdf_pages r) = map int [1..<Suc (length allImagePaths)]"
      by simp
    with r show ?thesis by blast
  qed
  ultimately show ?thesis by blast
qed

theorem page_outcome_order_witness:
  "(\<exists>r. fst (extractTextFromPdfPages demo_rasterizer demo_engine ''upload.pdf'' [3, 1, 1, 7]
             default_pdf_options demo_world) = Inr r \<and>
        map pageNumber (sel_pages r) = [3, 1, 1, 7])
   \<and> (\<exists>r. fst (extractTextFromPdf demo_rasterizer demo_engine ''upload.pdf'' default_pdf_options
             demo_world) = Inr r \<and>
        map pageNumber (pdf_pages r) = [1, 2, 3])"
proof -
  have h: "demo_rasterizer ''upload.pdf'' (density default_pdf_options) =
             Inr [''page1.png'', ''bad.png'', ''page3.png'']"
    by (simp add: demo_rasterizer_def)
  have "map int [1..<Suc (length [''page1.png'', ''bad.png'', ''page3.png''])] = [1, 2, 3]"
    by (simp add: upt_conv_Cons)
  with h page_outcome_order
    [where rast = demo_rasterizer and pdfPath = "''upload.pdf''" and options = default_pdf_options
       and allImagePaths = "[''page1.png'', ''bad.png'', ''page3.png'']" and eng = demo_engine
       and pageNumbers = "[3, 1, 1, 7]" and w = demo_world]
  show ?thesis by simp
qed

section \<open>Failed outcomes and their messages\<close>

lemma extractTextFromImage_message_prefix:
  "fst (extractTextFromImage eng imagePath options w) = Inl message \<Longrightarrow>
     \<exists>rest. message = ''OCR processing failed: '' @ rest"
  by (auto simp: extractTextFromImage_def Let_def split: option.splits sum.splits)

lemma pdf_page_loop_messages:
  "\<forall>p\<in>set (pageResults acc). p_error p \<noteq> Some [] \<Longrightarrow>
   \<forall>p\<in>set (pageResults (fst (pdf_page_loop eng options i imagePaths acc w))). p_error p \<noteq> Some []"
proof (induction imagePaths arbitrary: i acc w)
  case Nil
  then show ?case by simp
next
  case (Cons imagePath rest)
  obtain r w1 where step:
    "extractTextFromImage eng imagePath (ocr_options.truncate options) w = (r, w1)"
    by (cases "extractTextFromImage eng imagePath (ocr_options.truncate options) w")
  have "\<forall>message. r = Inl message \<longrightarrow> message \<noteq> []"
    using step extractTextFromImage_message_nonempty
      [of eng imagePath "ocr_options.truncate options" w] by simp
  then have "\<forall>p\<in>set (pageResults (pdf_page_step options i r acc)). p_error p \<noteq> Some []"
    using Cons.prems
    by (auto simp: pdf_page_step_pages page_data_def failed_page_def split: sum.splits)
  from Cons.IH [OF this, of "Suc i" "cleanup_image imagePath w1"] step
  show ?case by simp
qed

lemma missing_page_message_nonempty: "missing_page_message pageNum n \<noteq> []"
  by (simp add: missing_page_message_def)

lemma sel_page_loop_messages:
  "\<forall>p\<in>set (sel_pageResults acc). p_error p \<noteq> Some [] \<Longrightarrow>
   \<forall>p\<in>set (sel_pageResults (fst (sel_page_loop eng options allImagePaths pageNumbers acc w))).
      p_error p \<noteq> Some []"
proof (induction pageNumbers arbitrary: acc w)
  case Nil
  then show ?case by simp
next
  case (Cons pageNum rest)
  show ?case
  proof (cases "pageNum - 1 < 0 \<or> pageNum - 1 \<ge> int (length allImagePaths)")
    case True
    have "\<forall>p\<in>set (sel_pageResults (acc\<lparr>sel_pageResults := sel_pageResults acc @
             [failed_page pageNum (missing_page_message pageNum (length allImagePaths))]\<rparr>)).
            p_error p \<noteq> Some []"
      using Cons.prems by (auto simp: failed_page_def missing_page_message_nonempty)
    from Cons.IH [OF this, of w] True show ?thesis by (simp add: Let_def)
  next
    case False
    obtain r w1 where step:
      "extractTextFromImage eng (allImagePaths ! nat (pageNum - 1)) (ocr_options.truncate options) w = (r, w1)"
      by (cases "extractTextFromImage eng (allImagePaths ! nat (pageNum - 1)) (ocr_options.truncate options) w")
    have "\<forall>message. r = Inl message \<longrightarrow> message \<noteq> []"
      using step extractTextFromImage_message_nonempty
        [of eng "allImagePaths ! nat (pageNum - 1)" "ocr_options.truncate options" w] by simp
    then have "\<forall>p\<in>set (sel_pageResults (sel_page_step pageNum r acc)). p_error p \<noteq> Some []"
      using Cons.prems
      by (auto simp: sel_page_step_pages page_data_def failed_page_def split: sum.splits)
    from Cons.IH [OF this, of w1] step False show ?thesis by (simp add: Let_def)
  qed
qed

lemma has_error_iff:
  "p_error p \<noteq> Some [] \<Longrightarrow> has_error p = (p_error p \<noteq> None)"
  by (cases "p_error p") (auto simp: has_error_def)

lemma filter_has_error_cong:
  "\<forall>p\<in>set ps. p_error p \<noteq> Some [] \<Longrightarrow>
     filter has_error ps = filter (\<lambda>p. p_error p \<noteq> None) ps"
  by (rule filter_cong) (auto simp: has_error_iff)

lemma pdf_report_messages:
  assumes "fst (extractTextFromPdf rast eng pdfPath options w) = Inr r"
  shows "\<forall>p\<in>set (pdf_pages r). p_error p \<noteq> Some []"
proof (cases "rast pdfPath (density options)")
  case (Inl failure)
  obtain msg written where "failure = (msg, written)" by (cases failure)
  with Inl have "fst (extractTextFromPdf rast eng pdfPath options w) =
      Inl (''PDF OCR processing failed: Failed to convert PDF to images: '' @ msg)"
    by (simp add: extractTextFromPdf_disk(2))
  with assms show ?thesis by simp
next
  case (Inr imagePaths)
  from extractTextFromPdf_returns [where rast = rast and pdfPath = pdfPath and options = options
      and eng = eng and w = w and imagePaths = imagePaths] Inr assms
  have "pdf_pages r = pageResults (fst (pdf_page_loop eng options 0 imagePaths
               \<lparr>pageResults = [], combinedText = [], totalConfidence = 0, totalWords = 0\<rparr>
               (w\<lparr>files := files w \<union> set imagePaths\<rparr>)))"
    by auto
  then show ?thesis
    using pdf_page_loop_messages [of "\<lparr>pageResults = [], combinedText = [], totalConfidence = 0,
      totalWords = 0\<rparr>" eng options 0 imagePaths "w\<lparr>files := files w \<union> set imagePaths\<rparr>"]
    by simp
qed

lemma pages_report_messages:
  assumes "fst (extractTextFromPdfPages rast eng pdfPath pageNumbers options w) = Inr r"
  shows "\<forall>p\<in>set (sel_pages r). p_error p \<noteq> Some []"
proof (cases "rast pdfPath (density options)")
  case (Inl failure)
  obtain msg written where "failure = (msg, written)" by (cases failure)
  with Inl have "fst (extractTextFromPdfPages rast eng pdfPath pageNumbers options w) =
      Inl (''PDF selective OCR processing failed: Failed to convert PDF to images: '' @ msg)"
    by (simp add: extractTextFromPdfPages_disk(2))
  with assms show ?thesis by simp
next
  case (Inr allImagePaths)
  from extractTextFromPdfPages_returns [where rast = rast and pdfPath = pdfPath
      and options = options and eng = eng and w = w and allImagePaths = allImagePaths
      and pageNumbers = pageNumbers] Inr assms
  have "sel_pages r = sel_pageResults (fst (sel_page_loop eng options allImagePaths pageNumbers
               \<lparr>sel_pageResults = [], sel_totalConfidence = 0, sel_totalWords = 0\<rparr>
               (w\<lparr>files := files w \<union> set allImagePaths\<rparr>)))"
    by auto
  then show ?thesis
    using sel_page_loop_messages [of "\<lparr>sel_pageResults = [], sel_totalConfidence = 0,
      sel_totalWords = 0\<rparr>" eng options allImagePaths pageNumbers
      "w\<lparr>files := files w \<union> set allImagePaths\<rparr>"]
    by simp
qed

lemma pdf_report_counts:
  assumes "fst (extractTextFromPdf rast eng pdfPath options w) = Inr r"
  shows "successfulPages (pdf_summary r) = length (filter (\<lambda>p. \<not> has_error p) (pdf_pages r))"
    and "failedPages (pdf_summary r) = length (filter has_error (pdf_pages r))"
  using assms
  by (auto simp: extractTextFromPdf_def split: prod.splits sum.splits)

lemma pages_report_counts:
  assumes "fst (extractTextFromPdfPages rast eng pdfPath pageNumbers options w) = Inr r"
  shows "ps_successfulPages (sel_summary r) = length (filter (\<lambda>p. \<not> has_error p) (sel_pages r))"
    and "ps_failedPages (sel_summary r) = length (filter has_error (sel_pages r))"
  using assms
  by (auto simp: extractTextFromPdfPages_def split: prod.splits sum.splits)

section \<open>The batch loop\<close>

lemma extractTextFromImage_calls:
  "engine_calls (snd (extractTextFromImage eng imagePath options w)) =
     engine_calls w @
       (if validate_languages (js_split CHR ''+'' (language options)) = None
        then [(imagePath, language options, make_tesseract_options options)] else [])"
  by (simp add: extractTextFromImage_def Let_def split: option.splits sum.splits)

lemma batch_loop_results:
  "fst (batch_loop eng options i fs rs w) =
     rs @ map (\<lambda>(k, file). batch_entry file k
                 (fst (extractTextFromImage eng (f_path file) options w0)))
            (zip [i..<i + length fs] fs)"
proof (induction fs arbitrary: i rs w)
  case Nil
  show ?case by simp
next
  case (Cons item rest)
  obtain r w1 where step: "extractTextFromImage eng (f_path item) options w = (r, w1)"
    by (cases "extractTextFromImage eng (f_path item) options w")
  then have r: "r = fst (extractTextFromImage eng (f_path item) options w0)"
    using extractTextFromImage_result_indep [of eng "f_path item" options w w0] by simp
  have "[i..<i + length (item # rest)] = i # [Suc i..<Suc i + length rest]"
    using upt_conv_Cons [of i "i + length (item # rest)"] by simp
  then show ?case
    using step r Cons.IH [of "Suc i" "rs @ [batch_entry item i r]" w1] by simp
qed

lemma batch_loop_calls:
  "engine_calls (snd (batch_loop eng options i fs rs w)) =
     engine_calls w @
       (if validate_languages (js_split CHR ''+'' (language options)) = None
        then map (\<lambda>file. (f_path file, language options, make_tesseract_options options)) fs
        else [])"
proof (induction fs arbitrary: i rs w)
  case Nil
  show ?case by simp
next
  case (Cons item rest)
  obtain r w1 where step: "extractTextFromImage eng (f_path item) options w = (r, w1)"
    by (cases "extractTextFromImage eng (f_path item) options w")
  then have "engine_calls w1 = engine_calls w @
       (if validate_languages (js_split CHR ''+'' (language options)) = None
        then [(f_path item, language options, make_tesseract_options options)] else [])"
    using extractTextFromImage_calls [of eng "f_path item" options w] by simp
  then show ?case
    using step Cons.IH [of "Suc i" "rs @ [batch_entry item i r]" w1] by simp
qed

lemma batch_entry_fields:
  "index (fileInfo (batch_entry item i r)) = i"
  "success (batch_entry item i r) = (\<not> isl r)"
  "(item_error (batch_entry item i r) = None) = success (batch_entry item i r)"
  by (simp_all add: batch_entry_def batch_file_info_def split: sum.splits)

lemma batchExtract_returns:
  assumes "fs \<noteq> []"
  shows "batchExtract eng (Some fs) body w =
     (SuccessResponse
        \<lparr>results = fst (batch_loop eng
             (default_ocr_options\<lparr>language := default_str ''eng'' (bb_language body),
                psm := default_str ''3'' (bb_psm body), oem := default_str ''3'' (bb_oem body)\<rparr>)
             0 fs [] w),
         summary =
           \<lparr>totalFiles = length fs,
            successfulFiles = length (filter success (fst (batch_loop eng
             (default_ocr_options\<lparr>language := default_str ''eng'' (bb_language body),
                psm := default_str ''3'' (bb_psm body), oem := default_str ''3'' (bb_oem body)\<rparr>)
             0 fs [] w))),
            failedFiles = length fs - length (filter success (fst (batch_loop eng
             (default_ocr_options\<lparr>language := default_str ''eng'' (bb_language body),
                psm := default_str ''3'' (bb_psm body), oem := default_str ''3'' (bb_oem body)\<rparr>)
             0 fs [] w))),
            bs_language = default_str ''eng'' (bb_language body)\<rparr>\<rparr>,
      snd (batch_loop eng
             (default_ocr_options\<lparr>language := default_str ''eng'' (bb_language body),
                psm := default_str ''3'' (bb_psm body), oem := default_str ''3'' (bb_oem body)\<rparr>)
             0 fs [] w))"
  using assms by (simp add: batchExtract_def Let_def split: prod.splits)

lemma batch_loop_length:
  "length (fst (batch_loop eng options i fs rs w)) = length rs + length fs"
  by (simp add: batch_loop_results [where ?w0.0 = w])

lemma batch_loop_error_iff_failed:
  assumes "\<forall>x\<in>set rs. (item_error x = None) = success x"
  shows "\<forall>x\<in>set (fst (batch_loop eng options i fs rs w)).
           (item_error x = None) = success x"
  using assms
  by (auto simp: batch_loop_results [where ?w0.0 = w] batch_entry_fields(3))

section \<open>Summary counts\<close>

lemma length_filter_split:
  "length (filter (\<lambda>x. \<not> P x) xs) + length (filter P xs) = length xs"
  by (induction xs) auto

text \<open>
  Claim C10. In every report of the two document operations the count of successful
  pages plus the count of failed pages is the number of page outcomes, and the failed
  count is the number of outcomes that carry an error field. In every batch response
  the successful and failed counts add up to \<open>totalFiles\<close>, which is the number of
  uploaded files and of outcomes, and the failed count is the number of outcomes that
  carry an error field.
\<close>

theorem summary_counts_consistent:
  assumes "rast pdfPath (density options) = Inr allImagePaths" and "uploaded \<noteq> []"
  shows "(\<exists>r. fst (extractTextFromPdf rast eng pdfPath options w) = Inr r \<and>
            successfulPages (pdf_summary r) + failedPages (pdf_summary r) = length (pdf_pages r) \<and>
            failedPages (pdf_summary r) = length (filter (\<lambda>p. p_error p \<noteq> None) (pdf_pages r)))
       \<and> (\<exists>r. fst (extractTextFromPdfPages rast eng pdfPath pageNumbers options w) = Inr r \<and>
            ps_successfulPages (sel_summary r) + ps_failedPages (sel_summary r) =
              length (sel_pages r) \<and>
            ps_failedPages (sel_summary r) =
              length (filter (\<lambda>p. p_error p \<noteq> None) (sel_pages r)))
       \<and> (\<exists>r. fst (batchExtract eng (Some uploaded) body w) = SuccessResponse r \<and>
            successfulFiles (summary r) + failedFiles (summary r) = totalFiles (summary r) \<and>
            totalFiles (summary r) = length uploaded \<and>
            length (results r) = length uploaded \<and>
            failedFiles (summary r) = length (filter (\<lambda>x. item_error x \<noteq> None) (results r)))"
proof (intro conjI)
  from assms(1) extractTextFromPdf_returns
    [where rast = rast and pdfPath = pdfPath and options = options and eng = eng and w = w
       and imagePaths = allImagePaths]
  obtain r where r: "fst (extractTextFromPdf rast eng pdfPath options w) = Inr r" by blast
  have "filter has_error (pdf_pages r) = filter (\<lambda>p. p_error p \<noteq> None) (pdf_pages r)"
    using pdf_report_messages [OF r] by (rule filter_has_error_cong)
  then have "failedPages (pdf_summary r) = length (filter (\<lambda>p. p_error p \<noteq> None) (pdf_pages r))"
    using pdf_report_counts(2) [OF r] by simp
  moreover have "successfulPages (pdf_summary r) + failedPages (pdf_summary r) = length (pdf_pages r)"
    using pdf_report_counts [OF r] length_filter_split [of has_error "pdf_pages r"] by simp
  ultimately show "\<exists>r. fst (extractTextFromPdf rast eng pdfPath options w) = Inr r \<and>
            successfulPages (pdf_summary r) + failedPages (pdf_summary r) = length (pdf_pages r) \<and>
            failedPages (pdf_summary r) = length (filter (\<lambda>p. p_error p \<noteq> None) (pdf_pages r))"
    using r by blast
next
  from assms(1) extractTextFromPdfPages_returns
    [where rast = rast and pdfPath = pdfPath and options = options and eng = eng and w = w
       and allImagePaths = allImagePaths and pageNumbers = pageNumbers]
  obtain r where r: "fst (extractTextFromPdfPages rast eng pdfPath pageNumbers options w) = Inr r"
    by blast
  have "filter has_error (sel_pages r) = filter (\<lambda>p. p_error p \<noteq> None) (sel_pages r)"
    using pages_report_messages [OF r] by (rule filter_has_error_cong)
  then have "ps_failedPages (sel_summary r) =
      length (filter (\<lambda>p. p_error p \<noteq> None) (sel_pages r))"
    using pages_report_counts(2) [OF r] by simp
  moreover have "ps_successfulPages (sel_summary r) + ps_failedPages (sel_summary r) =
      length (sel_pages r)"
    using pages_report_counts [OF r] length_filter_split [of has_error "sel_pages r"] by simp
  ultimately show "\<exists>r. fst (extractTextFromPdfPages rast eng pdfPath pageNumbers options w) = Inr r \<and>
            ps_successfulPages (sel_summary r) + ps_failedPages (sel_summary r) =
              length (sel_pages r) \<and>
            ps_failedPages (sel_summary r) =
              length (filter (\<lambda>p. p_error p \<noteq> None) (sel_pages r))"
    using r by blast
next
  define opts where "opts = default_ocr_options\<lparr>language := default_str ''eng'' (bb_language body),
                psm := default_str ''3'' (bb_psm body), oem := default_str ''3'' (bb_oem body)\<rparr>"
  define rs where "rs = fst (batch_loop eng opts 0 uploaded [] w)"
  have len: "length rs = length uploaded"
    by (simp add: rs_def batch_loop_length)
  have "\<forall>x\<in>set rs. (item_error x = None) = success x"
    unfolding rs_def by (rule batch_loop_error_iff_failed) simp
  then have "filter (\<lambda>x. item_error x \<noteq> None) rs = filter (\<lambda>x. \<not> success x) rs"
    by (intro filter_cong) auto
  then have failed: "length (filter (\<lambda>x. item_error x \<noteq> None) rs) =
      length uploaded - length (filter success rs)"
    using length_filter_split [of success rs] len by simp
  have "length (filter success rs) \<le> length uploaded"
    using length_filter_le [of success rs] len by simp
  with failed len show "\<exists>r. fst (batchExtract eng (Some uploaded) body w) = SuccessResponse r \<and>
            successfulFiles (summary r) + failedFiles (summary r) = totalFiles (summary r) \<and>
            totalFiles (summary r) = length uploaded \<and>
            length (results r) = length uploaded \<and>
            failedFiles (summary r) = length (filter (\<lambda>x. item_error x \<noteq> None) (results r))"
    by (simp add: batchExtract_returns [OF assms(2)] rs_def opts_def)
qed

theorem summary_counts_consistent_witness:
  "demo_rasterizer ''upload.pdf'' (density default_pdf_options) =
      Inr [''page1.png'', ''bad.png'', ''page3.png'']
   \<and> demo_uploads \<noteq> []
   \<and> (\<exists>r. fst (extractTextFromPdf demo_rasterizer demo_engine ''upload.pdf'' default_pdf_options
              demo_world) = Inr r \<and>
          successfulPages (pdf_summary r) + failedPages (pdf_summary r) = length (pdf_pages r) \<and>
          failedPages (pdf_summary r) = length (filter (\<lambda>p. p_error p \<noteq> None) (pdf_pages r)))
   \<and> (\<exists>r. fst (extractTextFromPdfPages demo_rasterizer demo_engine ''upload.pdf'' [3, 1, 1, 7]
              default_pdf_options demo_world) = Inr r \<and>
          ps_successfulPages (sel_summary r) + ps_failedPages (sel_summary r) =
            length (sel_pages r) \<and>
          ps_failedPages (sel_summary r) =
            length (filter (\<lambda>p. p_error p \<noteq> None) (sel_pages r)))
   \<and> (\<exists>r. fst (batchExtract demo_engine (Some demo_uploads) demo_batch_body demo_world) =
              SuccessResponse r \<and>
          successfulFiles (summary r) + failedFiles (summary r) = totalFiles (summary r) \<and>
          totalFiles (summary r) = length demo_uploads \<and>
          length (results r) = length demo_uploads \<and>
          failedFiles (summary r) = length (filter (\<lambda>x. item_error x \<noteq> None) (results r)))"
proof -
  have h1: "demo_rasterizer ''upload.pdf'' (density default_pdf_options) =
      Inr [''page1.png'', ''bad.png'', ''page3.png'']"
    by (simp add: demo_rasterizer_def)
  have h2: "demo_uploads \<noteq> []"
    by (simp add: demo_uploads_def)
  from h1 h2 summary_counts_consistent
    [where rast = demo_rasterizer and pdfPath = "''upload.pdf''" and options = default_pdf_options
       and allImagePaths = "[''page1.png'', ''bad.png'', ''page3.png'']" and uploaded = demo_uploads
       and eng = demo_engine and w = demo_world and pageNumbers = "[3, 1, 1, 7]"
       and body = demo_batch_body]
  show ?thesis by blast
qed

section \<open>Batch outcomes\<close>

lemma batchExtract_results:
  assumes "fs \<noteq> []"
  shows "\<exists>r. fst (batchExtract eng (Some fs) body w) = SuccessResponse r \<and>
             results r = fst (batch_loop eng (batch_options body) 0 fs [] w)"
    and "snd (batchExtract eng (Some fs) body w) =
           snd (batch_loop eng (batch_options body) 0 fs [] w)"
  by (simp_all add: batchExtract_returns [OF assms] batch_options_def)

text \<open>
  The batch loop when every recognition settles its promise without throwing outside it.
  For a non-empty upload list \<open>batchExtract\<close> answers with a success response; there is
  one outcome per item; the outcome at position \<open>i\<close> is built from item \<open>i\<close> and from
  what recognition does on that item alone, carries index \<open>i\<close>, and is a success exactly
  when that recognition did not fail. When the language tag is valid the engine calls
  added by the batch are the calls for the items in input order.
\<close>

lemma batch_outcomes_when_settled:
  assumes "uploaded \<noteq> []"
  shows "(\<exists>r. fst (batchExtract eng (Some uploaded) body w) = SuccessResponse r \<and>
            length (results r) = length uploaded \<and>
            (\<forall>i<length uploaded.
               results r ! i =
                 batch_entry (uploaded ! i) i
                   (fst (extractTextFromImage eng (f_path (uploaded ! i)) (batch_options body) w0)) \<and>
               index (fileInfo (results r ! i)) = i \<and>
               success (results r ! i) =
                 (\<not> isl (fst (extractTextFromImage eng (f_path (uploaded ! i))
                               (batch_options body) w0)))))
       \<and> engine_calls (snd (batchExtract eng (Some uploaded) body w)) =
           engine_calls w @
             (if validate_languages (js_split CHR ''+'' (language (batch_options body))) = None
              then map (\<lambda>item. (f_path item, language (batch_options body),
                                 make_tesseract_options (batch_options body))) uploaded
              else [])"
proof -
  from batchExtract_results(1) [OF assms, of eng body w]
  obtain r where r: "fst (batchExtract eng (Some uploaded) body w) = SuccessResponse r"
    and rs: "results r = fst (batch_loop eng (batch_options body) 0 uploaded [] w)"
    by blast
  have closed: "results r =
      map (\<lambda>(k, item). batch_entry item k
             (fst (extractTextFromImage eng (f_path item) (batch_options body) w0)))
        (zip [0..<length uploaded] uploaded)"
    using batch_loop_results [of eng "batch_options body" 0 uploaded "[]" w w0] rs by simp
  have len: "length (results r) = length uploaded"
    by (simp add: closed)
  have nth: "results r ! i =
        batch_entry (uploaded ! i) i
          (fst (extractTextFromImage eng (f_path (uploaded ! i)) (batch_options body) w0))"
    if "i < length uploaded" for i
    using that by (simp add: closed)
  have "engine_calls (snd (batchExtract eng (Some uploaded) body w)) =
           engine_calls w @
             (if validate_languages (js_split CHR ''+'' (language (batch_options body))) = None
              then map (\<lambda>item. (f_path item, language (batch_options body),
                                 make_tesseract_options (batch_options body))) uploaded
              else [])"
    unfolding batchExtract_results(2) [OF assms] by (rule batch_loop_calls)
  with r len nth show ?thesis
    by (auto simp: batch_entry_fields)
qed

lemma batch_outcomes_when_settled_example:
  "demo_uploads \<noteq> []
   \<and> (\<exists>r. fst (batchExtract demo_engine (Some demo_uploads) demo_batch_body demo_world) =
              SuccessResponse r \<and>
          length (results r) = 3 \<and>
          index (fileInfo (results r ! 0)) = 0 \<and> success (results r ! 0) \<and>
          index (fileInfo (results r ! 1)) = 1 \<and> \<not> success (results r ! 1) \<and>
          index (fileInfo (results r ! 2)) = 2 \<and> success (results r ! 2))
   \<and> map fst (engine_calls (snd (batchExtract demo_engine (Some demo_uploads) demo_batch_body
                 demo_world))) = [''page1.png'', ''bad.png'', ''page3.png'']"
proof -
  have h: "demo_uploads \<noteq> []"
    by (simp add: demo_uploads_def)
  have ok: "\<not> isl (fst (extractTextFromImage demo_engine ''page1.png''
                      (batch_options demo_batch_body) demo_world))"
       "isl (fst (extractTextFromImage demo_engine ''bad.png''
                      (batch_options demo_batch_body) demo_world))"
       "\<not> isl (fst (extractTextFromImage demo_engine ''page3.png''
                      (batch_options demo_batch_body) demo_world))"
    by (simp_all add: extractTextFromImage_def batch_options_def demo_batch_body_def
        default_ocr_options_def default_str_def supportedLanguages_def demo_engine_def Let_def)
  have valid: "validate_languages
      (js_split CHR ''+'' (language (batch_options demo_batch_body))) = None"
    by (simp add: batch_options_def demo_batch_body_def default_ocr_options_def default_str_def
        supportedLanguages_def)
  from batch_outcomes_when_settled [OF h, of demo_engine demo_batch_body demo_world demo_world]
  obtain r where r: "fst (batchExtract demo_engine (Some demo_uploads) demo_batch_body demo_world) =
              SuccessResponse r"
    and len: "length (results r) = length demo_uploads"
    and nth: "\<forall>i<length demo_uploads.
               index (fileInfo (results r ! i)) = i \<and>
               success (results r ! i) =
                 (\<not> isl (fst (extractTextFromImage demo_engine (f_path (demo_uploads ! i))
                               (batch_options demo_batch_body) demo_world)))"
    and calls: "engine_calls (snd (batchExtract demo_engine (Some demo_uploads) demo_batch_body
                 demo_world)) =
           engine_calls demo_world @
             (if validate_languages
                   (js_split CHR ''+'' (language (batch_options demo_batch_body))) = None
              then map (\<lambda>item. (f_path item, language (batch_options demo_batch_body),
                                 make_tesseract_options (batch_options demo_batch_body)))
                     demo_uploads
              else [])"
    by blast
  have l3: "length demo_uploads = 3" by (simp add: demo_uploads_def)
  have paths: "f_path (demo_uploads ! 0) = ''page1.png''" "f_path (demo_uploads ! 1) = ''bad.png''"
    "f_path (demo_uploads ! 2) = ''page3.png''"
    by (simp_all add: demo_uploads_def)
  from nth l3 have "index (fileInfo (results r ! 0)) = 0 \<and> success (results r ! 0) \<and>
          index (fileInfo (results r ! 1)) = 1 \<and> \<not> success (results r ! 1) \<and>
          index (fileInfo (results r ! 2)) = 2 \<and> success (results r ! 2)"
    using ok paths by simp
  moreover have "map fst (engine_calls (snd (batchExtract demo_engine (Some demo_uploads)
     demo_batch_body demo_world))) = [''page1.png'', ''bad.png'', ''page3.png'']"
    unfolding calls using valid by (simp add: demo_world_def demo_uploads_def)
  ultimately show ?thesis using h r len l3 by auto
qed

section \<open>The concrete run, evaluated\<close>

lemma demo_ocr:
  "extractTextFromImage demo_engine ''page1.png'' (ocr_options.truncate default_pdf_options) w =
     (Inr \<lparr>r_text = ''a'', r_confidence = 80, r_words = [demo_unit], r_lines = [demo_unit],
           r_paragraphs = [demo_unit], r_blocks = [demo_unit]\<rparr>,
      w\<lparr>engine_calls := engine_calls w @
          [(''page1.png'', ''eng'', make_tesseract_options (ocr_options.truncate default_pdf_options))]\<rparr>)"
  "extractTextFromImage demo_engine ''bad.png'' (ocr_options.truncate default_pdf_options) w =
     (Inl ''OCR processing failed: Error attempting to read image.'',
      w\<lparr>engine_calls := engine_calls w @
          [(''bad.png'', ''eng'', make_tesseract_options (ocr_options.truncate default_pdf_options))]\<rparr>)"
  "extractTextFromImage demo_engine ''page3.png'' (ocr_options.truncate default_pdf_options) w =
     (Inr \<lparr>r_text = ''a'', r_confidence = 100, r_words = [demo_unit], r_lines = [demo_unit],
           r_paragraphs = [demo_unit], r_blocks = [demo_unit]\<rparr>,
      w\<lparr>engine_calls := engine_calls w @
          [(''page3.png'', ''eng'', make_tesseract_options (ocr_options.truncate default_pdf_options))]\<rparr>)"
  by (simp_all add: extractTextFromImage_def ocr_options.truncate_def default_pdf_options_def
      supportedLanguages_def demo_engine_def Let_def trim_def is_ws_def copy_unit_def
      demo_unit_def)

lemma demo_option_fields:
  "density default_pdf_options = 300"
  "combinePages default_pdf_options"
  "includePageNumbers default_pdf_options"
  "language default_pdf_options = ''eng''"
  by (simp_all add: default_pdf_options_def)

lemma demo_pdf_run:
  "fst (extractTextFromPdf demo_rasterizer demo_engine ''upload.pdf'' default_pdf_options demo_world) =
     Inr \<lparr>pdf_text = Some (''--- Page 1 ---'' @ [CHR 0x0A, CHR 0x0A] @ ''a'' @
                             [CHR 0x0A, CHR 0x0A, CHR 0x0A] @
                             ''--- Page 3 ---'' @ [CHR 0x0A, CHR 0x0A] @ ''a''),
          pdf_pages =
            [\<lparr>pageNumber = 1, p_text = ''a'', p_confidence = 80, wordCount = 1, lineCount = 1,
               p_words = Some [demo_unit], p_lines = Some [demo_unit], p_error = None\<rparr>,
             \<lparr>pageNumber = 2, p_text = '''', p_confidence = 0, wordCount = 0, lineCount = 0,
               p_words = None, p_lines = None,
               p_error = Some ''OCR processing failed: Error attempting to read image.''\<rparr>,
             \<lparr>pageNumber = 3, p_text = ''a'', p_confidence = 100, wordCount = 1, lineCount = 1,
               p_words = Some [demo_unit], p_lines = Some [demo_unit], p_error = None\<rparr>],
          pdf_summary =
            \<lparr>totalPages = 3, s_totalWords = 2, averageConfidence = 60, s_language = ''eng'',
             successfulPages = 2, failedPages = 1\<rparr>\<rparr>"
  by (simp add: extractTextFromPdf_def convertPdfToImages_def demo_rasterizer_def demo_ocr
      demo_option_fields pdf_page_step_def page_data_def failed_page_def has_error_def
      page_marker_def string_of_nat.simps trim_def is_ws_def digit_char_def)

lemma demo_pages_run:
  "fst (extractTextFromPdfPages demo_rasterizer demo_engine ''upload.pdf'' [1, 1, 7]
          default_pdf_options demo_world) =
     Inr \<lparr>sel_pages =
            [\<lparr>pageNumber = 1, p_text = ''a'', p_confidence = 80, wordCount = 1, lineCount = 1,
               p_words = Some [demo_unit], p_lines = Some [demo_unit], p_error = None\<rparr>,
             \<lparr>pageNumber = 1, p_text = ''a'', p_confidence = 80, wordCount = 1, lineCount = 1,
               p_words = Some [demo_unit], p_lines = Some [demo_unit], p_error = None\<rparr>,
             \<lparr>pageNumber = 7, p_text = '''', p_confidence = 0, wordCount = 0, lineCount = 0,
               p_words = None, p_lines = None,
               p_error = Some ''Page 7 does not exist. PDF has 3 pages.''\<rparr>],
          sel_summary =
            \<lparr>requestedPages = 3, totalPagesInPdf = 3, ps_totalWords = 2,
             ps_averageConfidence = 160 / 3, ps_language = ''eng'',
             ps_successfulPages = 2, ps_failedPages = 1\<rparr>\<rparr>"
  by (simp add: extractTextFromPdfPages_def convertPdfToImages_def demo_rasterizer_def demo_ocr
      demo_option_fields sel_page_step_def page_data_def failed_page_def has_error_def
      missing_page_message_def string_of_nat.simps string_of_int_def Let_def digit_char_def)

section \<open>Average confidence\<close>

lemma extractTextFromPdf_report:
  assumes "rast pdfPath (density options) = Inr imagePaths"
  obtains r acc w1 where
    "fst (extractTextFromPdf rast eng pdfPath options w) = Inr r"
    "acc = fst (pdf_page_loop eng options 0 imagePaths
             \<lparr>pageResults = [], combinedText = [], totalConfidence = 0, totalWords = 0\<rparr> w1)"
    "pdf_pages r = pageResults acc"
    "averageConfidence (pdf_summary r) =
       (if length imagePaths > 0 then totalConfidence acc / real (length imagePaths) else 0)"
    "pdf_text r = (if combinePages options then Some (trim (combinedText acc)) else None)"
    "totalPages (pdf_summary r) = length imagePaths"
proof -
  define w1 where "w1 = w\<lparr>files := files w \<union> set imagePaths\<rparr>"
  obtain acc w2 where loop: "pdf_page_loop eng options 0 imagePaths
      \<lparr>pageResults = [], combinedText = [], totalConfidence = 0, totalWords = 0\<rparr> w1 = (acc, w2)"
    by (cases "pdf_page_loop eng options 0 imagePaths
      \<lparr>pageResults = [], combinedText = [], totalConfidence = 0, totalWords = 0\<rparr> w1")
  show thesis
  proof (rule that [of _ acc w1])
    show "fst (extractTextFromPdf rast eng pdfPath options w) =
      Inr \<lparr>pdf_text = (if combinePages options then Some (trim (combinedText acc)) else None),
           pdf_pages = pageResults acc,
           pdf_summary =
             \<lparr>totalPages = length imagePaths,
              s_totalWords = totalWords acc,
              averageConfidence =
                (if length imagePaths > 0
                 then totalConfidence acc / real (length imagePaths) else 0),
              s_language = language options,
              successfulPages = length (filter (\<lambda>p. \<not> has_error p) (pageResults acc)),
              failedPages = length (filter (\<lambda>p. has_error p) (pageResults acc))\<rparr>\<rparr>"
      using assms loop
      by (simp add: extractTextFromPdf_def convertPdfToImages_def w1_def)
  qed (simp_all add: loop)
qed

lemma extractTextFromPdfPages_report:
  assumes "rast pdfPath (density options) = Inr allImagePaths"
  obtains r acc w1 where
    "fst (extractTextFromPdfPages rast eng pdfPath pageNumbers options w) = Inr r"
    "acc = fst (sel_page_loop eng options allImagePaths pageNumbers
             \<lparr>sel_pageResults = [], sel_totalConfidence = 0, sel_totalWords = 0\<rparr> w1)"
    "sel_pages r = sel_pageResults acc"
    "ps_averageConfidence (sel_summary r) =
       (if length (sel_pageResults acc) > 0
        then sel_totalConfidence acc / real (length (sel_pageResults acc)) else 0)"
    "totalPagesInPdf (sel_summary r) = length allImagePaths"
proof -
  define w1 where "w1 = w\<lparr>files := files w \<union> set allImagePaths\<rparr>"
  obtain acc w2 where loop: "sel_page_loop eng options allImagePaths pageNumbers
      \<lparr>sel_pageResults = [], sel_totalConfidence = 0, sel_totalWords = 0\<rparr> w1 = (acc, w2)"
    by (cases "sel_page_loop eng options allImagePaths pageNumbers
      \<lparr>sel_pageResults = [], sel_totalConfidence = 0, sel_totalWords = 0\<rparr> w1")
  show thesis
  proof (rule that [of _ acc w1])
    show "fst (extractTextFromPdfPages rast eng pdfPath pageNumbers options w) =
      Inr \<lparr>sel_pages = sel_pageResults acc,
           sel_summary =
             \<lparr>requestedPages = length pageNumbers,
              totalPagesInPdf = length allImagePaths,
              ps_totalWords = sel_totalWords acc,
              ps_averageConfidence =
                (if length (sel_pageResults acc) > 0
                 then sel_totalConfidence acc / real (length (sel_pageResults acc))
                 else 0),
              ps_language = language options,
              ps_successfulPages =
                length (filter (\<lambda>p. \<not> has_error p) (sel_pageResults acc)),
              ps_failedPages =
                length (filter (\<lambda>p. has_error p) (sel_pageResults acc))\<rparr>\<rparr>"
      using assms loop
      by (simp add: extractTextFromPdfPages_def convertPdfToImages_def w1_def)
  qed (simp_all add: loop)
qed

lemma has_error_page_data [simp]: "\<not> has_error (page_data n pageResult)"
  by (simp add: has_error_def page_data_def)

lemma has_error_failed_page [simp]: "has_error (failed_page n message) = (message \<noteq> [])"
  by (simp add: has_error_def failed_page_def)

lemma pdf_page_loop_confidence:
  "totalConfidence acc =
     sum_list (map p_confidence (filter (\<lambda>p. \<not> has_error p) (pageResults acc))) \<Longrightarrow>
   totalConfidence (fst (pdf_page_loop eng options i imagePaths acc w)) =
     sum_list (map p_confidence (filter (\<lambda>p. \<not> has_error p)
       (pageResults (fst (pdf_page_loop eng options i imagePaths acc w)))))"
proof (induction imagePaths arbitrary: i acc w)
  case Nil
  then show ?case by simp
next
  case (Cons imagePath rest)
  obtain r w1 where step:
    "extractTextFromImage eng imagePath (ocr_options.truncate options) w = (r, w1)"
    by (cases "extractTextFromImage eng imagePath (ocr_options.truncate options) w")
  have "\<forall>message. r = Inl message \<longrightarrow> message \<noteq> []"
    using step extractTextFromImage_message_nonempty
      [of eng imagePath "ocr_options.truncate options" w] by simp
  then have "totalConfidence (pdf_page_step options i r acc) =
     sum_list (map p_confidence (filter (\<lambda>p. \<not> has_error p)
       (pageResults (pdf_page_step options i r acc))))"
    using Cons.prems
    by (cases r) (simp_all add: pdf_page_step_def page_data_def failed_page_def has_error_def)
  from Cons.IH [OF this, of "Suc i" "cleanup_image imagePath w1"] step
  show ?case by simp
qed

lemma sel_page_loop_confidence:
  "sel_totalConfidence acc =
     sum_list (map p_confidence (filter (\<lambda>p. \<not> has_error p) (sel_pageResults acc))) \<Longrightarrow>
   sel_totalConfidence (fst (sel_page_loop eng options allImagePaths pageNumbers acc w)) =
     sum_list (map p_confidence (filter (\<lambda>p. \<not> has_error p)
       (sel_pageResults (fst (sel_page_loop eng options allImagePaths pageNumbers acc w)))))"
proof (induction pageNumbers arbitrary: acc w)
  case Nil
  then show ?case by simp
next
  case (Cons pageNum rest)
  show ?case
  proof (cases "pageNum - 1 < 0 \<or> pageNum - 1 \<ge> int (length allImagePaths)")
    case True
    define acc1 where "acc1 = acc\<lparr>sel_pageResults := sel_pageResults acc @
             [failed_page pageNum (missing_page_message pageNum (length allImagePaths))]\<rparr>"
    have "sel_totalConfidence acc1 =
        sum_list (map p_confidence (filter (\<lambda>p. \<not> has_error p) (sel_pageResults acc1)))"
      using Cons.prems by (simp add: acc1_def missing_page_message_nonempty)
    from Cons.IH [OF this, of w] True show ?thesis by (simp add: Let_def acc1_def)
  next
    case False
    obtain r w1 where step:
      "extractTextFromImage eng (allImagePaths ! nat (pageNum - 1)) (ocr_options.truncate options) w = (r, w1)"
      by (cases "extractTextFromImage eng (allImagePaths ! nat (pageNum - 1)) (ocr_options.truncate options) w")
    have "\<forall>message. r = Inl message \<longrightarrow> message \<noteq> []"
      using step extractTextFromImage_message_nonempty
        [of eng "allImagePaths ! nat (pageNum - 1)" "ocr_options.truncate options" w] by simp
    then have "sel_totalConfidence (sel_page_step pageNum r acc) =
        sum_list (map p_confidence (filter (\<lambda>p. \<not> has_error p)
          (sel_pageResults (sel_page_step pageNum r acc))))"
      using Cons.prems
      by (cases r) (simp_all add: sel_page_step_def page_data_def failed_page_def has_error_def)
    from Cons.IH [OF this, of w1] step False show ?thesis by (simp add: Let_def)
  qed
qed

lemma pdf_page_loop_length:
  "length (pageResults (fst (pdf_page_loop eng options i imagePaths acc w))) =
     length (pageResults acc) + length imagePaths"
proof -
  have "length (map pageNumber (pageResults (fst (pdf_page_loop eng options i imagePaths acc w)))) =
     length (pageResults acc) + length imagePaths"
    unfolding pdf_page_loop_numbers by (simp del: upt_Suc)
  then show ?thesis by simp
qed

lemma filter_no_error_cong:
  "\<forall>p\<in>set ps. p_error p \<noteq> Some [] \<Longrightarrow>
     filter (\<lambda>p. \<not> has_error p) ps = filter (\<lambda>p. p_error p = None) ps"
  by (rule filter_cong) (auto simp: has_error_iff)

text \<open>
  Claim C1, as the code has it. The \<open>averageConfidence\<close> of either document operation is
  the sum of the confidences of the successful page outcomes divided by the number of all
  page outcomes of the report, the failed ones included, and 0 for a report without
  outcomes. So it is 0 when no outcome succeeded, and it is the average over the
  successful outcomes when no outcome failed.
\<close>

theorem averageConfidence_over_all_outcomes:
  assumes "rast pdfPath (density options) = Inr allImagePaths"
  shows "(\<exists>r. fst (extractTextFromPdf rast eng pdfPath options w) = Inr r \<and>
            averageConfidence (pdf_summary r) =
              (if pdf_pages r = [] then 0
               else sum_list (map p_confidence (filter (\<lambda>p. p_error p = None) (pdf_pages r)))
                    / real (length (pdf_pages r))))
       \<and> (\<exists>r. fst (extractTextFromPdfPages rast eng pdfPath pageNumbers options w) = Inr r \<and>
            ps_averageConfidence (sel_summary r) =
              (if sel_pages r = [] then 0
               else sum_list (map p_confidence (filter (\<lambda>p. p_error p = None) (sel_pages r)))
                    / real (length (sel_pages r))))"
proof
  from assms obtain r acc w1 where r: "fst (extractTextFromPdf rast eng pdfPath options w) = Inr r"
    and acc: "acc = fst (pdf_page_loop eng options 0 allImagePaths
             \<lparr>pageResults = [], combinedText = [], totalConfidence = 0, totalWords = 0\<rparr> w1)"
    and pages: "pdf_pages r = pageResults acc"
    and avg: "averageConfidence (pdf_summary r) =
       (if length allImagePaths > 0 then totalConfidence acc / real (length allImagePaths) else 0)"
    by (rule extractTextFromPdf_report)
  have len: "length (pdf_pages r) = length allImagePaths"
    unfolding pages acc by (simp add: pdf_page_loop_length)
  have "filter (\<lambda>p. \<not> has_error p) (pdf_pages r) = filter (\<lambda>p. p_error p = None) (pdf_pages r)"
    using pdf_report_messages [OF r] by (rule filter_no_error_cong)
  moreover have "totalConfidence acc =
      sum_list (map p_confidence (filter (\<lambda>p. \<not> has_error p) (pageResults acc)))"
    unfolding acc by (rule pdf_page_loop_confidence) simp
  ultimately have "totalConfidence acc =
      sum_list (map p_confidence (filter (\<lambda>p. p_error p = None) (pdf_pages r)))"
    using pages by simp
  with avg len r show "\<exists>r. fst (extractTextFromPdf rast eng pdfPath options w) = Inr r \<and>
            averageConfidence (pdf_summary r) =
              (if pdf_pages r = [] then 0
               else sum_list (map p_confidence (filter (\<lambda>p. p_error p = None) (pdf_pages r)))
                    / real (length (pdf_pages r)))"
    by (cases "pdf_pages r") auto
next
  from assms obtain r acc w1 where
    r: "fst (extractTextFromPdfPages rast eng pdfPath pageNumbers options w) = Inr r"
    and acc: "acc = fst (sel_page_loop eng options allImagePaths pageNumbers
             \<lparr>sel_pageResults = [], sel_totalConfidence = 0, sel_totalWords = 0\<rparr> w1)"
    and pages: "sel_pages r = sel_pageResults acc"
    and avg: "ps_averageConfidence (sel_summary r) =
       (if length (sel_pageResults acc) > 0
        then sel_totalConfidence acc / real (length (sel_pageResults acc)) else 0)"
    by (rule extractTextFromPdfPages_report)
  have "filter (\<lambda>p. \<not> has_error p) (sel_pages r) = filter (\<lambda>p. p_error p = None) (sel_pages r)"
    using pages_report_messages [OF r] by (rule filter_no_error_cong)
  moreover have "sel_totalConfidence acc =
      sum_list (map p_confidence (filter (\<lambda>p. \<not> has_error p) (sel_pageResults acc)))"
    unfolding acc by (rule sel_page_loop_confidence) simp
  ultimately have "sel_totalConfidence acc =
      sum_list (map p_confidence (filter (\<lambda>p. p_error p = None) (sel_pages r)))"
    using pages by simp
  with avg pages r show "\<exists>r. fst (extractTextFromPdfPages rast eng pdfPath pageNumbers options w) = Inr r \<and>
            ps_averageConfidence (sel_summary r) =
              (if sel_pages r = [] then 0
               else sum_list (map p_confidence (filter (\<lambda>p. p_error p = None) (sel_pages r)))
                    / real (length (sel_pages r)))"
    by (cases "sel_pages r") auto
qed

theorem averageConfidence_over_all_outcomes_witness:
  "demo_rasterizer ''upload.pdf'' (density default_pdf_options) =
      Inr [''page1.png'', ''bad.png'', ''page3.png'']
   \<and> (\<exists>r. fst (extractTextFromPdf demo_rasterizer demo_engine ''upload.pdf'' default_pdf_options
               demo_world) = Inr r \<and>
            averageConfidence (pdf_summary r) =
              (if pdf_pages r = [] then 0
               else sum_list (map p_confidence (filter (\<lambda>p. p_error p = None) (pdf_pages r)))
                    / real (length (pdf_pages r))))
   \<and> (\<exists>r. fst (extractTextFromPdfPages demo_rasterizer demo_engine ''upload.pdf'' [1, 1, 7]
               default_pdf_options demo_world) = Inr r \<and>
            ps_averageConfidence (sel_summary r) =
              (if sel_pages r = [] then 0
               else sum_list (map p_confidence (filter (\<lambda>p. p_error p = None) (sel_pages r)))
                    / real (length (sel_pages r))))"
proof -
  have h: "demo_rasterizer ''upload.pdf'' (density default_pdf_options) =
      Inr [''page1.png'', ''bad.png'', ''page3.png'']"
    by (simp add: demo_rasterizer_def)
  from h averageConfidence_over_all_outcomes
    [where rast = demo_rasterizer and pdfPath = "''upload.pdf''" and options = default_pdf_options
       and allImagePaths = "[''page1.png'', ''bad.png'', ''page3.png'']" and eng = demo_engine
       and w = demo_world and pageNumbers = "[1, 1, 7]"]
  show ?thesis by blast
qed

text \<open>
  Claim C1, as stated, fails on the three-page document whose second page the engine
  rejects: the successful pages have confidences 80 and 100, yet the reported average is
  180 / 3 = 60, not 90.
\<close>

theorem averageConfidence_counterexample:
  "map p_confidence (filter (Not \<circ> has_error)
     (pdf_pages (projr (fst (extractTextFromPdf demo_rasterizer demo_engine ''upload.pdf''
        default_pdf_options demo_world))))) = [80, 100]
   \<and> averageConfidence (pdf_summary (projr (fst (extractTextFromPdf demo_rasterizer demo_engine
        ''upload.pdf'' default_pdf_options demo_world)))) = 60
   \<and> averageConfidence (pdf_summary (projr (fst (extractTextFromPdf demo_rasterizer demo_engine
        ''upload.pdf'' default_pdf_options demo_world)))) \<noteq> 90"
  by (simp add: demo_pdf_run has_error_def)

section \<open>Combined text\<close>

lemma marked_page_text_page_data:
  "marked_page_text (page_data (int i + 1) pageResult) =
     (if trim (r_text pageResult) \<noteq> [] then page_marker (Suc i) else []) @
     r_text pageResult @ [CHR 0x0A]"
proof -
  have "nat (int i + 1) = Suc i" by simp
  then show ?thesis by (simp add: marked_page_text_def page_data_def)
qed

lemma pdf_page_loop_text:
  assumes "combinePages options" and "includePageNumbers options"
    and "combinedText acc =
           concat (map marked_page_text (filter (\<lambda>p. \<not> has_error p) (pageResults acc)))"
  shows "combinedText (fst (pdf_page_loop eng options i imagePaths acc w)) =
           concat (map marked_page_text (filter (\<lambda>p. \<not> has_error p)
             (pageResults (fst (pdf_page_loop eng options i imagePaths acc w)))))"
  using assms(3)
proof (induction imagePaths arbitrary: i acc w)
  case Nil
  then show ?case by simp
next
  case (Cons imagePath rest)
  obtain r w1 where step:
    "extractTextFromImage eng imagePath (ocr_options.truncate options) w = (r, w1)"
    by (cases "extractTextFromImage eng imagePath (ocr_options.truncate options) w")
  have "\<forall>message. r = Inl message \<longrightarrow> message \<noteq> []"
    using step extractTextFromImage_message_nonempty
      [of eng imagePath "ocr_options.truncate options" w] by simp
  then have "combinedText (pdf_page_step options i r acc) =
     concat (map marked_page_text (filter (\<lambda>p. \<not> has_error p)
       (pageResults (pdf_page_step options i r acc))))"
    using Cons.prems assms(1,2)
    by (cases r) (simp_all add: pdf_page_step_def marked_page_text_page_data)
  from Cons.IH [OF this, of "Suc i" "cleanup_image imagePath w1"] step
  show ?case by simp
qed

text \<open>
  Claim C2, as the code has it. When the rasterizer resolves and the options ask for
  combined text with page numbers, the \<open>text\<close> of the report is the trimmed
  concatenation, in document order over the pages that were recognised (a failed page
  adds nothing), of: two line feeds, \<^verbatim>\<open>--- Page N ---\<close> and two line feeds when the
  trimmed text of page \<open>N\<close> is not empty; the text of the page; one line feed.
\<close>

theorem combined_text_of_recognised_pages:
  assumes "rast pdfPath (density options) = Inr allImagePaths"
    and "combinePages options" and "includePageNumbers options"
  shows "\<exists>r. fst (extractTextFromPdf rast eng pdfPath options w) = Inr r \<and>
           pdf_text r =
             Some (trim (concat (map marked_page_text
                                   (filter (\<lambda>p. p_error p = None) (pdf_pages r)))))"
proof -
  from assms(1) obtain r acc w1 where r: "fst (extractTextFromPdf rast eng pdfPath options w) = Inr r"
    and acc: "acc = fst (pdf_page_loop eng options 0 allImagePaths
             \<lparr>pageResults = [], combinedText = [], totalConfidence = 0, totalWords = 0\<rparr> w1)"
    and pages: "pdf_pages r = pageResults acc"
    and txt_eq: "pdf_text r = (if combinePages options then Some (trim (combinedText acc)) else None)"
    by (rule extractTextFromPdf_report)
  have "combinedText acc =
      concat (map marked_page_text (filter (\<lambda>p. \<not> has_error p) (pageResults acc)))"
    unfolding acc by (rule pdf_page_loop_text [OF assms(2,3)]) simp
  moreover have "filter (\<lambda>p. \<not> has_error p) (pdf_pages r) =
      filter (\<lambda>p. p_error p = None) (pdf_pages r)"
    using pdf_report_messages [OF r] by (rule filter_no_error_cong)
  ultimately show ?thesis
    using r pages txt_eq assms(2) by simp
qed

theorem combined_text_of_recognised_pages_witness:
  "demo_rasterizer ''upload.pdf'' (density default_pdf_options) =
      Inr [''page1.png'', ''bad.png'', ''page3.png'']
   \<and> combinePages default_pdf_options \<and> includePageNumbers default_pdf_options
   \<and> (\<exists>r. fst (extractTextFromPdf demo_rasterizer demo_engine ''upload.pdf'' default_pdf_options
              demo_world) = Inr r \<and>
           pdf_text r =
             Some (trim (concat (map marked_page_text
                                   (filter (\<lambda>p. p_error p = None) (pdf_pages r))))))"
proof -
  have h: "demo_rasterizer ''upload.pdf'' (density default_pdf_options) =
      Inr [''page1.png'', ''bad.png'', ''page3.png'']"
    by (simp add: demo_rasterizer_def)
  from h demo_option_fields(2,3) combined_text_of_recognised_pages
    [where rast = demo_rasterizer and pdfPath = "''upload.pdf''" and options = default_pdf_options
       and allImagePaths = "[''page1.png'', ''bad.png'', ''page3.png'']" and eng = demo_engine
       and w = demo_world]
  show ?thesis by blast
qed

text \<open>
  Claim C2, as stated, fails on the three-page document read with the default options
  (combined text, page numbers): the text of the report has line feeds around each
  marker and after each page, so it is not the bare concatenation of markers and page
  texts.
\<close>

theorem combined_text_counterexample:
  "pdf_text (projr (fst (extractTextFromPdf demo_rasterizer demo_engine ''upload.pdf''
      default_pdf_options demo_world))) =
     Some (''--- Page 1 ---'' @ [CHR 0x0A, CHR 0x0A] @ ''a'' @ [CHR 0x0A, CHR 0x0A, CHR 0x0A] @
           ''--- Page 3 ---'' @ [CHR 0x0A, CHR 0x0A] @ ''a'')
   \<and> spec_combined_text (pdf_pages (projr (fst (extractTextFromPdf demo_rasterizer demo_engine
        ''upload.pdf'' default_pdf_options demo_world)))) = ''--- Page 1 ---a--- Page 3 ---a''
   \<and> pdf_text (projr (fst (extractTextFromPdf demo_rasterizer demo_engine ''upload.pdf''
      default_pdf_options demo_world))) \<noteq>
     Some (spec_combined_text (pdf_pages (projr (fst (extractTextFromPdf demo_rasterizer
       demo_engine ''upload.pdf'' default_pdf_options demo_world)))))"
  by (simp add: demo_pdf_run spec_combined_text_def trim_def is_ws_def string_of_int_def
      string_of_nat.simps digit_char_def)

section \<open>Requested pages\<close>

lemma sel_page_loop_pages:
  "sel_pageResults (fst (sel_page_loop eng options allImagePaths pageNumbers acc w)) =
     sel_pageResults acc @ map (requested_page_outcome eng options allImagePaths) pageNumbers"
proof (induction pageNumbers arbitrary: acc w)
  case Nil
  show ?case by simp
next
  case (Cons pageNum rest)
  show ?case
  proof (cases "pageNum - 1 < 0 \<or> pageNum - 1 \<ge> int (length allImagePaths)")
    case True
    then show ?thesis
      using Cons.IH by (simp add: Let_def requested_page_outcome_def)
  next
    case False
    obtain r w1 where step:
      "extractTextFromImage eng (allImagePaths ! nat (pageNum - 1)) (ocr_options.truncate options) w = (r, w1)"
      by (cases "extractTextFromImage eng (allImagePaths ! nat (pageNum - 1)) (ocr_options.truncate options) w")
    then have "r = fst (extractTextFromImage eng (allImagePaths ! nat (pageNum - 1))
                        (ocr_options.truncate options) \<lparr>files = {}, engine_calls = [], undeletable = {}\<rparr>)"
      using extractTextFromImage_result_indep
        [of eng "allImagePaths ! nat (pageNum - 1)" "ocr_options.truncate options" w
           "\<lparr>files = {}, engine_calls = [], undeletable = {}\<rparr>"] by simp
    with False step show ?thesis
      using Cons.IH [of "sel_page_step pageNum r acc" w1]
      by (simp add: Let_def sel_page_step_pages requested_page_outcome_def)
  qed
qed

lemma extractTextFromPdfPages_pages:
  assumes "rast pdfPath (density options) = Inr allImagePaths"
  shows "\<exists>r. fst (extractTextFromPdfPages rast eng pdfPath pageNumbers options w) = Inr r \<and>
             sel_pages r = map (requested_page_outcome eng options allImagePaths) pageNumbers \<and>
             totalPagesInPdf (sel_summary r) = length allImagePaths"
proof -
  from assms obtain r acc w1 where
    "fst (extractTextFromPdfPages rast eng pdfPath pageNumbers options w) = Inr r"
    "acc = fst (sel_page_loop eng options allImagePaths pageNumbers
             \<lparr>sel_pageResults = [], sel_totalConfidence = 0, sel_totalWords = 0\<rparr> w1)"
    "sel_pages r = sel_pageResults acc"
    "totalPagesInPdf (sel_summary r) = length allImagePaths"
    by (rule extractTextFromPdfPages_report)
  then show ?thesis by (simp add: sel_page_loop_pages)
qed

text \<open>
  Claim C3, as the code has it. When the rasterizer resolves to \<open>M\<close> page images and a
  requested page number \<open>N\<close> is outside 1..\<open>M\<close>, \<open>extractTextFromPdfPages\<close> still returns
  a report; the outcome for \<open>N\<close> is the failed page whose message is
  \<^verbatim>\<open>Page N does not exist. PDF has M pages.\<close>; and the outcomes before and after it are
  the outcomes of the requests made without \<open>N\<close>.
\<close>

theorem missing_page_is_contained:
  assumes "rast pdfPath (density options) = Inr allImagePaths"
    and "N < 1 \<or> int (length allImagePaths) < N"
  shows "\<exists>r rx ry.
           fst (extractTextFromPdfPages rast eng pdfPath (xs @ N # ys) options w) = Inr r \<and>
           fst (extractTextFromPdfPages rast eng pdfPath xs options w) = Inr rx \<and>
           fst (extractTextFromPdfPages rast eng pdfPath ys options w) = Inr ry \<and>
           sel_pages r =
             sel_pages rx @
             [failed_page N (''Page '' @ string_of_int N @ '' does not exist. PDF has '' @
                             string_of_nat (length allImagePaths) @ '' pages.'')] @
             sel_pages ry"
proof -
  from assms(1) extractTextFromPdfPages_pages
    [where rast = rast and pdfPath = pdfPath and options = options
       and allImagePaths = allImagePaths and eng = eng and pageNumbers = "xs @ N # ys" and w = w]
  obtain r where r: "fst (extractTextFromPdfPages rast eng pdfPath (xs @ N # ys) options w) = Inr r"
    "sel_pages r = map (requested_page_outcome eng options allImagePaths) (xs @ N # ys)"
    by blast
  from assms(1) extractTextFromPdfPages_pages
    [where rast = rast and pdfPath = pdfPath and options = options
       and allImagePaths = allImagePaths and eng = eng and pageNumbers = "xs" and w = w]
  obtain rx where rx: "fst (extractTextFromPdfPages rast eng pdfPath xs options w) = Inr rx"
    "sel_pages rx = map (requested_page_outcome eng options allImagePaths) xs"
    by blast
  from assms(1) extractTextFromPdfPages_pages
    [where rast = rast and pdfPath = pdfPath and options = options
       and allImagePaths = allImagePaths and eng = eng and pageNumbers = "ys" and w = w]
  obtain ry where ry: "fst (extractTextFromPdfPages rast eng pdfPath ys options w) = Inr ry"
    "sel_pages ry = map (requested_page_outcome eng options allImagePaths) ys"
    by blast
  have "requested_page_outcome eng options allImagePaths N =
      failed_page N (''Page '' @ string_of_int N @ '' does not exist. PDF has '' @
                             string_of_nat (length allImagePaths) @ '' pages.'')"
    using assms(2) by (auto simp: requested_page_outcome_def missing_page_message_def)
  with r rx ry show ?thesis by simp
qed

theorem missing_page_is_contained_witness:
  "demo_rasterizer ''upload.pdf'' (density default_pdf_options) =
      Inr [''page1.png'', ''bad.png'', ''page3.png'']
   \<and> ((7::int) < 1 \<or> int (length [''page1.png'', ''bad.png'', ''page3.png'']) < 7)
   \<and> (\<exists>r rx ry.
           fst (extractTextFromPdfPages demo_rasterizer demo_engine ''upload.pdf'' ([3] @ 7 # [1])
                  default_pdf_options demo_world) = Inr r \<and>
           fst (extractTextFromPdfPages demo_rasterizer demo_engine ''upload.pdf'' [3]
                  default_pdf_options demo_world) = Inr rx \<and>
           fst (extractTextFromPdfPages demo_rasterizer demo_engine ''upload.pdf'' [1]
                  default_pdf_options demo_world) = Inr ry \<and>
           sel_pages r =
             sel_pages rx @
             [failed_page 7 (''Page '' @ string_of_int 7 @ '' does not exist. PDF has '' @
                             string_of_nat (length [''page1.png'', ''bad.png'', ''page3.png'']) @
                             '' pages.'')] @
             sel_pages ry)"
proof -
  have h1: "demo_rasterizer ''upload.pdf'' (density default_pdf_options) =
      Inr [''page1.png'', ''bad.png'', ''page3.png'']"
    by (simp add: demo_rasterizer_def)
  have h2: "(7::int) < 1 \<or> int (length [''page1.png'', ''bad.png'', ''page3.png'']) < 7"
    by simp
  from h1 h2 missing_page_is_contained
    [where rast = demo_rasterizer and pdfPath = "''upload.pdf''" and options = default_pdf_options
       and allImagePaths = "[''page1.png'', ''bad.png'', ''page3.png'']" and N = 7
       and eng = demo_engine and xs = "[3]" and ys = "[1]" and w = demo_world]
  show ?thesis by blast
qed

text \<open>
  Claim C3, as stated, fails on its message: for page 7 of the three-page document the
  error message says \<^verbatim>\<open>PDF has 3 pages\<close>, not \<^verbatim>\<open>Document has 3 pages\<close>.
\<close>

theorem missing_page_message_counterexample:
  "p_error (last (sel_pages (projr (fst (extractTextFromPdfPages demo_rasterizer demo_engine
      ''upload.pdf'' [1, 1, 7] default_pdf_options demo_world))))) =
     Some ''Page 7 does not exist. PDF has 3 pages.''
   \<and> p_error (last (sel_pages (projr (fst (extractTextFromPdfPages demo_rasterizer demo_engine
      ''upload.pdf'' [1, 1, 7] default_pdf_options demo_world))))) \<noteq>
     Some ''Page 7 does not exist. Document has 3 pages.''"
  by (simp add: demo_pages_run)

section \<open>Page numbers of a report\<close>

lemma pageNumber_requested_page_outcome [simp]:
  "pageNumber (requested_page_outcome eng options allImagePaths pageNum) = pageNum"
  by (simp add: requested_page_outcome_def page_data_def failed_page_def split: sum.splits)

lemma requested_page_outcome_in_range:
  "(1 \<le> pageNum \<and> pageNum \<le> int (length allImagePaths)) =
     (p_error (requested_page_outcome eng options allImagePaths pageNum) \<noteq>
        Some (missing_page_message pageNum (length allImagePaths)))"
proof (cases "pageNum - 1 < 0 \<or> pageNum - 1 \<ge> int (length allImagePaths)")
  case True
  then show ?thesis
    by (auto simp: requested_page_outcome_def failed_page_def)
next
  case False
  define r where "r = fst (extractTextFromImage eng (allImagePaths ! nat (pageNum - 1))
                        (ocr_options.truncate options) \<lparr>files = {}, engine_calls = [], undeletable = {}\<rparr>)"
  have "p_error (case r of Inr pageResult \<Rightarrow> page_data pageNum pageResult
                 | Inl message \<Rightarrow> failed_page pageNum message) \<noteq>
        Some (missing_page_message pageNum (length allImagePaths))"
  proof (cases r)
    case (Inl message)
    then obtain rest where "message = ''OCR processing failed: '' @ rest"
      using extractTextFromImage_message_prefix
        [of eng "allImagePaths ! nat (pageNum - 1)" "ocr_options.truncate options"
           "\<lparr>files = {}, engine_calls = [], undeletable = {}\<rparr>" message]
      by (auto simp: r_def)
    with Inl show ?thesis
      by (simp add: failed_page_def missing_page_message_def)
  next
    case (Inr pageResult)
    then show ?thesis by (simp add: page_data_def)
  qed
  with False show ?thesis
    by (simp add: requested_page_outcome_def r_def)
qed

text \<open>
  Claim C7, as the code has it. In a report of \<open>extractTextFromPdf\<close> the page numbers of
  the outcomes are unique and lie within 1..\<open>totalPages\<close>. In a report of
  \<open>extractTextFromPdfPages\<close> the page numbers are those requested: they are unique
  exactly when the request names no page twice, and an outcome's page number lies within
  1..\<open>totalPagesInPdf\<close> exactly when the outcome is not the failure recorded for a page
  that does not exist.
\<close>

theorem report_page_numbers:
  assumes "rast pdfPath (density options) = Inr allImagePaths"
  shows "(\<exists>r. fst (extractTextFromPdf rast eng pdfPath options w) = Inr r \<and>
            distinct (map pageNumber (pdf_pages r)) \<and>
            (\<forall>p\<in>set (pdf_pages r).
               1 \<le> pageNumber p \<and> pageNumber p \<le> int (totalPages (pdf_summary r))))
       \<and> (\<exists>r. fst (extractTextFromPdfPages rast eng pdfPath pageNumbers options w) = Inr r \<and>
            distinct (map pageNumber (sel_pages r)) = distinct pageNumbers \<and>
            (\<forall>p\<in>set (sel_pages r).
               (1 \<le> pageNumber p \<and> pageNumber p \<le> int (totalPagesInPdf (sel_summary r))) =
               (p_error p \<noteq>
                  Some (missing_page_message (pageNumber p) (totalPagesInPdf (sel_summary r))))))"
proof
  from assms obtain r acc w1 where r: "fst (extractTextFromPdf rast eng pdfPath options w) = Inr r"
    and acc: "acc = fst (pdf_page_loop eng options 0 allImagePaths
             \<lparr>pageResults = [], combinedText = [], totalConfidence = 0, totalWords = 0\<rparr> w1)"
    and pages: "pdf_pages r = pageResults acc"
    and total: "totalPages (pdf_summary r) = length allImagePaths"
    by (rule extractTextFromPdf_report)
  have numbers: "map pageNumber (pdf_pages r) = map int [Suc 0..<Suc (length allImagePaths)]"
    unfolding pages acc pdf_page_loop_numbers by simp
  have "distinct (map int [Suc 0..<Suc (length allImagePaths)])"
    by (simp add: distinct_map del: upt_Suc)
  then have d: "distinct (map pageNumber (pdf_pages r))"
    using numbers by simp
  have "1 \<le> pageNumber p \<and> pageNumber p \<le> int (totalPages (pdf_summary r))"
    if "p \<in> set (pdf_pages r)" for p
  proof -
    from that have "pageNumber p \<in> set (map pageNumber (pdf_pages r))" by simp
    then have "pageNumber p \<in> int ` {Suc 0..<Suc (length allImagePaths)}"
      unfolding numbers by (simp del: upt_Suc)
    then show ?thesis using total by auto
  qed
  with r d show "\<exists>r. fst (extractTextFromPdf rast eng pdfPath options w) = Inr r \<and>
            distinct (map pageNumber (pdf_pages r)) \<and>
            (\<forall>p\<in>set (pdf_pages r).
               1 \<le> pageNumber p \<and> pageNumber p \<le> int (totalPages (pdf_summary r)))"
    by blast
next
  from assms extractTextFromPdfPages_pages
    [where rast = rast and pdfPath = pdfPath and options = options
       and allImagePaths = allImagePaths and eng = eng and pageNumbers = pageNumbers and w = w]
  obtain r where r: "fst (extractTextFromPdfPages rast eng pdfPath pageNumbers options w) = Inr r"
    and pages: "sel_pages r = map (requested_page_outcome eng options allImagePaths) pageNumbers"
    and total: "totalPagesInPdf (sel_summary r) = length allImagePaths"
    by blast
  have "map pageNumber (sel_pages r) = pageNumbers"
    unfolding pages by (simp add: comp_def)
  then have d: "distinct (map pageNumber (sel_pages r)) = distinct pageNumbers"
    by simp
  have "(1 \<le> pageNumber p \<and> pageNumber p \<le> int (totalPagesInPdf (sel_summary r))) =
               (p_error p \<noteq>
                  Some (missing_page_message (pageNumber p) (totalPagesInPdf (sel_summary r))))"
    if "p \<in> set (sel_pages r)" for p
  proof -
    from that pages obtain n where "p = requested_page_outcome eng options allImagePaths n"
      by auto
    then show ?thesis
      using requested_page_outcome_in_range [of n allImagePaths eng options] total by simp
  qed
  with r d show "\<exists>r. fst (extractTextFromPdfPages rast eng pdfPath pageNumbers options w) = Inr r \<and>
            distinct (map pageNumber (sel_pages r)) = distinct pageNumbers \<and>
            (\<forall>p\<in>set (sel_pages r).
               (1 \<le> pageNumber p \<and> pageNumber p \<le> int (totalPagesInPdf (sel_summary r))) =
               (p_error p \<noteq>
                  Some (missing_page_message (pageNumber p) (totalPagesInPdf (sel_summary r)))))"
    by blast
qed

theorem report_page_numbers_witness:
  "demo_rasterizer ''upload.pdf'' (density default_pdf_options) =
      Inr [''page1.png'', ''bad.png'', ''page3.png'']
   \<and> (\<exists>r. fst (extractTextFromPdf demo_rasterizer demo_engine ''upload.pdf'' default_pdf_options
              demo_world) = Inr r \<and>
            distinct (map pageNumber (pdf_pages r)) \<and>
            (\<forall>p\<in>set (pdf_pages r).
               1 \<le> pageNumber p \<and> pageNumber p \<le> int (totalPages (pdf_summary r))))
   \<and> (\<exists>r. fst (extractTextFromPdfPages demo_rasterizer demo_engine ''upload.pdf'' [3, 1, 7]
              default_pdf_options demo_world) = Inr r \<and>
            distinct (map pageNumber (sel_pages r)) = distinct [3, 1, 7::int] \<and>
            (\<forall>p\<in>set (sel_pages r).
               (1 \<le> pageNumber p \<and> pageNumber p \<le> int (totalPagesInPdf (sel_summary r))) =
               (p_error p \<noteq>
                  Some (missing_page_message (pageNumber p) (totalPagesInPdf (sel_summary r))))))"
proof -
  have h: "demo_rasterizer ''upload.pdf'' (density default_pdf_options) =
      Inr [''page1.png'', ''bad.png'', ''page3.png'']"
    by (simp add: demo_rasterizer_def)
  from h report_page_numbers
    [where rast = demo_rasterizer and pdfPath = "''upload.pdf''" and options = default_pdf_options
       and allImagePaths = "[''page1.png'', ''bad.png'', ''page3.png'']" and eng = demo_engine
       and w = demo_world and pageNumbers = "[3, 1, 7]"]
  show ?thesis by blast
qed

text \<open>
  Claim C7, as stated, fails for \<open>extractTextFromPdfPages\<close>: the request 1, 1, 7 on the
  three-page document yields outcomes numbered 1, 1 and 7, which repeat a page number and
  leave the range 1..3.
\<close>

theorem report_page_numbers_counterexample:
  "map pageNumber (sel_pages (projr (fst (extractTextFromPdfPages demo_rasterizer demo_engine
      ''upload.pdf'' [1, 1, 7] default_pdf_options demo_world)))) = [1, 1, 7]
   \<and> totalPagesInPdf (sel_summary (projr (fst (extractTextFromPdfPages demo_rasterizer
      demo_engine ''upload.pdf'' [1, 1, 7] default_pdf_options demo_world)))) = 3
   \<and> \<not> distinct (map pageNumber (sel_pages (projr (fst (extractTextFromPdfPages
      demo_rasterizer demo_engine ''upload.pdf'' [1, 1, 7] default_pdf_options demo_world)))))"
  by (simp add: demo_pages_run)

section \<open>Detailed extraction\<close>

text \<open>
  Claim C4 against the code. A detailed request that omits the four include flags is
  answered without any of the four arrays, although the engine returned units: the
  defaults are the boolean \<^verbatim>\<open>true\<close>, and the tests compare with the string
  \<^verbatim>\<open>'true'\<close>. The same request with the flags sent as the string \<^verbatim>\<open>'true'\<close> is
  answered with the four arrays.
\<close>

theorem extractDetailedText_flags_omitted:
  "fst (extractDetailedText demo_engine
          (Some \<lparr>f_path = ''page1.png'', originalname = ''A.png'', f_size = 10,
                 mimetype = ''image/png''\<rparr>)
          \<lparr>b_language = None, b_psm = None, b_oem = None,
           b_includeWords = Undefined, b_includeLines = Undefined,
           b_includeParagraphs = Undefined, b_includeBlocks = Undefined\<rparr>
          demo_world) =
     SuccessResponse
       \<lparr>dd_text = ''a'', dd_confidence = 80, dd_language = ''eng'',
        dd_fileInfo = \<lparr>originalName = ''A.png'', fi_size = 10, fi_mimetype = ''image/png''\<rparr>,
        dd_words = None, dd_lines = None, dd_paragraphs = None, dd_blocks = None\<rparr>
   \<and> fst (extractDetailedText demo_engine
          (Some \<lparr>f_path = ''page1.png'', originalname = ''A.png'', f_size = 10,
                 mimetype = ''image/png''\<rparr>)
          \<lparr>b_language = None, b_psm = None, b_oem = None,
           b_includeWords = Str ''true'', b_includeLines = Str ''true'',
           b_includeParagraphs = Str ''true'', b_includeBlocks = Str ''true''\<rparr>
          demo_world) =
     SuccessResponse
       \<lparr>dd_text = ''a'', dd_confidence = 80, dd_language = ''eng'',
        dd_fileInfo = \<lparr>originalName = ''A.png'', fi_size = 10, fi_mimetype = ''image/png''\<rparr>,
        dd_words = Some [demo_unit], dd_lines = Some [demo_unit],
        dd_paragraphs = Some [demo_unit], dd_blocks = Some [demo_unit]\<rparr>"
  by (simp add: extractDetailedText_def extractTextFromImage_def default_ocr_options_def
      default_str_def default_to_def is_string_true_def supportedLanguages_def demo_engine_def
      Let_def trim_def is_ws_def copy_unit_def demo_unit_def)

section \<open>The operations run in the process\<close>

lemma settled_worker_of: "settled (worker_of eng) = eng"
  by (rule ext)+ (simp add: settled_def worker_of_def split: sum.splits)

lemma extractTextFromImage_process_Returned:
  "extractTextFromImage_process wk imagePath options w = Returned x \<Longrightarrow>
     x = extractTextFromImage (settled wk) imagePath options w"
  by (auto simp: extractTextFromImage_process_def split: option.splits recognition.splits)

lemma pdf_page_loop_process_Returned:
  "pdf_page_loop_process wk options i imagePaths acc w = Returned x \<Longrightarrow>
     x = pdf_page_loop (settled wk) options i imagePaths acc w"
proof (induction imagePaths arbitrary: i acc w)
  case Nil
  then show ?case by simp
next
  case (Cons imagePath rest)
  from Cons.prems obtain r w1 where
    step: "extractTextFromImage_process wk imagePath (ocr_options.truncate options) w = Returned (r, w1)"
    and rest: "pdf_page_loop_process wk options (i + 1) rest (pdf_page_step options i r acc)
                 (cleanup_image imagePath w1) = Returned x"
    by (auto split: run.splits)
  from extractTextFromImage_process_Returned [OF step]
  have "extractTextFromImage (settled wk) imagePath (ocr_options.truncate options) w = (r, w1)"
    by simp
  with Cons.IH [OF rest] show ?case by simp
qed

lemma sel_page_loop_process_Returned:
  "sel_page_loop_process wk options allImagePaths pageNumbers acc w = Returned x \<Longrightarrow>
     x = sel_page_loop (settled wk) options allImagePaths pageNumbers acc w"
proof (induction pageNumbers arbitrary: acc w)
  case Nil
  then show ?case by simp
next
  case (Cons pageNum rest)
  show ?case
  proof (cases "pageNum - 1 < 0 \<or> pageNum - 1 \<ge> int (length allImagePaths)")
    case True
    with Cons.prems have "sel_page_loop_process wk options allImagePaths rest
             (acc\<lparr>sel_pageResults := sel_pageResults acc @
                    [failed_page pageNum (missing_page_message pageNum (length allImagePaths))]\<rparr>) w
          = Returned x"
      by (simp add: Let_def)
    from Cons.IH [OF this] True show ?thesis by (simp add: Let_def)
  next
    case False
    with Cons.prems obtain r w1 where
      step: "extractTextFromImage_process wk (allImagePaths ! nat (pageNum - 1))
               (ocr_options.truncate options) w = Returned (r, w1)"
      and rest: "sel_page_loop_process wk options allImagePaths rest
                   (sel_page_step pageNum r acc) w1 = Returned x"
      by (auto simp: Let_def split: run.splits)
    from extractTextFromImage_process_Returned [OF step]
    have "extractTextFromImage (settled wk) (allImagePaths ! nat (pageNum - 1))
            (ocr_options.truncate options) w = (r, w1)"
      by simp
    with Cons.IH [OF rest] False show ?thesis by (simp add: Let_def)
  qed
qed

lemma batch_loop_process_Returned:
  "batch_loop_process wk options i fs rs w = Returned x \<Longrightarrow>
     x = batch_loop (settled wk) options i fs rs w"
proof (induction fs arbitrary: i rs w)
  case Nil
  then show ?case by simp
next
  case (Cons item rest)
  from Cons.prems obtain r w1 where
    step: "extractTextFromImage_process wk (f_path item) options w = Returned (r, w1)"
    and rest: "batch_loop_process wk options (i + 1) rest (rs @ [batch_entry item i r]) w1 =
                 Returned x"
    by (auto split: run.splits)
  from extractTextFromImage_process_Returned [OF step]
  have "extractTextFromImage (settled wk) (f_path item) options w = (r, w1)"
    by simp
  with Cons.IH [OF rest] show ?case by simp
qed

text \<open>An operation that returns in the process returns what the definitions of the
  first sections give for the way the promises settle.\<close>

lemma extractTextFromPdf_process_Returned:
  assumes "extractTextFromPdf_process rast wk pdfPath options w = Returned x"
  shows "x = extractTextFromPdf rast (settled wk) pdfPath options w"
proof (cases "convertPdfToImages rast pdfPath (density options) w")
  case (Pair c w1)
  show ?thesis
  proof (cases c)
    case (Inl msg)
    with Pair assms show ?thesis
      by (simp add: extractTextFromPdf_process_def extractTextFromPdf_def)
  next
    case (Inr imagePaths)
    with Pair assms obtain acc w2 where
      loop: "pdf_page_loop_process wk options 0 imagePaths
               \<lparr>pageResults = [], combinedText = '''', totalConfidence = 0, totalWords = 0\<rparr> w1 =
             Returned (acc, w2)"
      by (auto simp: extractTextFromPdf_process_def split: run.splits)
    from pdf_page_loop_process_Returned [OF loop]
    have "pdf_page_loop (settled wk) options 0 imagePaths
               \<lparr>pageResults = [], combinedText = '''', totalConfidence = 0, totalWords = 0\<rparr> w1 =
             (acc, w2)"
      by simp
    with Pair Inr assms loop show ?thesis
      by (simp add: extractTextFromPdf_process_def extractTextFromPdf_def)
  qed
qed

lemma extractTextFromPdfPages_process_Returned:
  assumes "extractTextFromPdfPages_process rast wk pdfPath pageNumbers options w = Returned x"
  shows "x = extractTextFromPdfPages rast (settled wk) pdfPath pageNumbers options w"
proof (cases "convertPdfToImages rast pdfPath (density options) w")
  case (Pair c w1)
  show ?thesis
  proof (cases c)
    case (Inl msg)
    with Pair assms show ?thesis
      by (simp add: extractTextFromPdfPages_process_def extractTextFromPdfPages_def)
  next
    case (Inr allImagePaths)
    with Pair assms obtain acc w2 where
      loop: "sel_page_loop_process wk options allImagePaths pageNumbers
               \<lparr>sel_pageResults = [], sel_totalConfidence = 0, sel_totalWords = 0\<rparr> w1 =
             Returned (acc, w2)"
      by (auto simp: extractTextFromPdfPages_process_def split: run.splits)
    from sel_page_loop_process_Returned [OF loop]
    have "sel_page_loop (settled wk) options allImagePaths pageNumbers
               \<lparr>sel_pageResults = [], sel_totalConfidence = 0, sel_totalWords = 0\<rparr> w1 =
             (acc, w2)"
      by simp
    with Pair Inr assms loop show ?thesis
      by (simp add: extractTextFromPdfPages_process_def extractTextFromPdfPages_def)
  qed
qed

lemma batchExtract_process_Returned:
  assumes "batchExtract_process wk uploaded body w = Returned x"
  shows "x = batchExtract (settled wk) uploaded body w"
proof (cases uploaded)
  case None
  with assms show ?thesis
    by (simp add: batchExtract_process_def batchExtract_def)
next
  case (Some fs)
  show ?thesis
  proof (cases "fs = []")
    case True
    with Some assms show ?thesis
      by (simp add: batchExtract_process_def batchExtract_def)
  next
    case False
    with Some assms obtain rs w1 where
      loop: "batch_loop_process wk (batch_options body) 0 fs [] w = Returned (rs, w1)"
      by (auto simp: batchExtract_process_def batch_options_def Let_def split: run.splits)
    from batch_loop_process_Returned [OF loop]
    have "batch_loop (settled wk) (batch_options body) 0 fs [] w = (rs, w1)"
      by simp
    with Some False assms loop show ?thesis
      by (simp add: batchExtract_process_def batchExtract_def batch_options_def Let_def)
  qed
qed

text \<open>Under a worker that never throws, every operation returns.\<close>

lemma extractTextFromImage_process_worker_of:
  "extractTextFromImage_process (worker_of eng) imagePath options w =
     Returned (extractTextFromImage eng imagePath options w)"
  by (simp add: extractTextFromImage_process_def settled_worker_of worker_of_def
      split: option.splits sum.splits)

lemma pdf_page_loop_process_worker_of:
  "pdf_page_loop_process (worker_of eng) options i imagePaths acc w =
     Returned (pdf_page_loop eng options i imagePaths acc w)"
  by (induction imagePaths arbitrary: i acc w)
    (simp_all add: extractTextFromImage_process_worker_of split: prod.splits)

lemma sel_page_loop_process_worker_of:
  "sel_page_loop_process (worker_of eng) options allImagePaths pageNumbers acc w =
     Returned (sel_page_loop eng options allImagePaths pageNumbers acc w)"
  by (induction pageNumbers arbitrary: acc w)
    (simp_all add: extractTextFromImage_process_worker_of Let_def split: prod.splits)

lemma batch_loop_process_worker_of:
  "batch_loop_process (worker_of eng) options i fs rs w =
     Returned (batch_loop eng options i fs rs w)"
  by (induction fs arbitrary: i rs w)
    (simp_all add: extractTextFromImage_process_worker_of split: prod.splits)

lemma process_worker_of:
  "extractTextFromPdf_process rast (worker_of eng) pdfPath options w =
     Returned (extractTextFromPdf rast eng pdfPath options w)"
  "extractTextFromPdfPages_process rast (worker_of eng) pdfPath pageNumbers options w =
     Returned (extractTextFromPdfPages rast eng pdfPath pageNumbers options w)"
  "batchExtract_process (worker_of eng) uploaded body w =
     Returned (batchExtract eng uploaded body w)"
  by (simp_all add: extractTextFromPdf_process_def extractTextFromPdf_def
      extractTextFromPdfPages_process_def extractTextFromPdfPages_def
      batchExtract_process_def batchExtract_def
      pdf_page_loop_process_worker_of sel_page_loop_process_worker_of
      batch_loop_process_worker_of Let_def split: prod.splits sum.splits option.splits)

section \<open>Page images after a document operation\<close>

text \<open>
  Claim C5, as the code has it. Whenever a document operation returns:
  if the conversion resolved, each page image the rasterizer returned has been unlinked
  (after its page in \<open>extractTextFromPdf\<close>, after the page loop in
  \<open>extractTextFromPdfPages\<close>), whether its page succeeded or failed, except the images
  whose unlink throws, which stay on disk; if the conversion rejected, the operation
  returns the error and deletes nothing, so the images written before the rejection
  stay on disk.
\<close>

theorem page_images_after_return:
  "(extractTextFromPdf_process rast wk pdfPath options w = Returned (res, w') \<longrightarrow>
      (case rast pdfPath (density options) of
         Inr imagePaths \<Rightarrow>
           files w' = (files w \<union> set imagePaths) - (set imagePaths - undeletable w)
       | Inl (msg, written) \<Rightarrow> isl res \<and> files w' = files w \<union> set written))
   \<and> (extractTextFromPdfPages_process rast wk pdfPath pageNumbers options w =
         Returned (res2, w2) \<longrightarrow>
      (case rast pdfPath (density options) of
         Inr imagePaths \<Rightarrow>
           files w2 = (files w \<union> set imagePaths) - (set imagePaths - undeletable w)
       | Inl (msg, written) \<Rightarrow> isl res2 \<and> files w2 = files w \<union> set written))"
proof (intro conjI impI)
  assume run: "extractTextFromPdf_process rast wk pdfPath options w = Returned (res, w')"
  from extractTextFromPdf_process_Returned [OF run]
  have eq: "extractTextFromPdf rast (settled wk) pdfPath options w = (res, w')" by simp
  show "case rast pdfPath (density options) of
         Inr imagePaths \<Rightarrow>
           files w' = (files w \<union> set imagePaths) - (set imagePaths - undeletable w)
       | Inl (msg, written) \<Rightarrow> isl res \<and> files w' = files w \<union> set written"
  proof (cases "rast pdfPath (density options)")
    case (Inr imagePaths)
    with extractTextFromPdf_disk(1) [of rast pdfPath options imagePaths "settled wk" w] eq
    show ?thesis by simp
  next
    case (Inl failure)
    obtain msg written where f: "failure = (msg, written)" by (cases failure)
    with Inl extractTextFromPdf_disk(2) [of rast pdfPath options msg written "settled wk" w] eq
    show ?thesis by auto
  qed
next
  assume run: "extractTextFromPdfPages_process rast wk pdfPath pageNumbers options w =
         Returned (res2, w2)"
  from extractTextFromPdfPages_process_Returned [OF run]
  have eq: "extractTextFromPdfPages rast (settled wk) pdfPath pageNumbers options w = (res2, w2)"
    by simp
  show "case rast pdfPath (density options) of
         Inr imagePaths \<Rightarrow>
           files w2 = (files w \<union> set imagePaths) - (set imagePaths - undeletable w)
       | Inl (msg, written) \<Rightarrow> isl res2 \<and> files w2 = files w \<union> set written"
  proof (cases "rast pdfPath (density options)")
    case (Inr imagePaths)
    with extractTextFromPdfPages_disk(1)
      [of rast pdfPath options imagePaths "settled wk" pageNumbers w] eq
    show ?thesis by simp
  next
    case (Inl failure)
    obtain msg written where f: "failure = (msg, written)" by (cases failure)
    with Inl extractTextFromPdfPages_disk(2)
      [of rast pdfPath options msg written "settled wk" pageNumbers w] eq
    show ?thesis by auto
  qed
qed

theorem page_images_after_return_witness:
  "(\<exists>res w'. extractTextFromPdf_process demo_rasterizer (worker_of demo_engine) ''upload.pdf''
                 default_pdf_options demo_locked_world = Returned (res, w') \<and>
              files w' = {''upload.pdf'', ''page3.png''})
   \<and> (\<exists>res w'. extractTextFromPdfPages_process demo_rasterizer (worker_of demo_engine)
                 ''upload.pdf'' [3, 1, 1, 7] default_pdf_options demo_world = Returned (res, w') \<and>
              files w' = {''upload.pdf''})
   \<and> (\<exists>res w'. extractTextFromPdf_process demo_rasterizer demo_worker ''broken.pdf''
                 default_pdf_options demo_world = Returned (res, w') \<and>
              isl res \<and> files w' = {''upload.pdf'', ''page1.png''})"
proof (intro conjI)
  define x where "x = extractTextFromPdf demo_rasterizer demo_engine ''upload.pdf''
                 default_pdf_options demo_locked_world"
  have run: "extractTextFromPdf_process demo_rasterizer (worker_of demo_engine) ''upload.pdf''
                 default_pdf_options demo_locked_world = Returned (fst x, snd x)"
    by (simp add: process_worker_of x_def)
  with page_images_after_return
    [of demo_rasterizer "worker_of demo_engine" "''upload.pdf''" default_pdf_options
        demo_locked_world "fst x" "snd x"]
  have "files (snd x) = {''upload.pdf'', ''page3.png''}"
    by (auto simp: demo_rasterizer_def demo_locked_world_def)
  with run show "\<exists>res w'. extractTextFromPdf_process demo_rasterizer (worker_of demo_engine)
                 ''upload.pdf'' default_pdf_options demo_locked_world = Returned (res, w') \<and>
              files w' = {''upload.pdf'', ''page3.png''}"
    by blast
next
  define x where "x = extractTextFromPdfPages demo_rasterizer demo_engine ''upload.pdf''
                 [3, 1, 1, 7] default_pdf_options demo_world"
  have run: "extractTextFromPdfPages_process demo_rasterizer (worker_of demo_engine)
                 ''upload.pdf'' [3, 1, 1, 7] default_pdf_options demo_world =
               Returned (fst x, snd x)"
    by (simp add: process_worker_of x_def)
  with page_images_after_return
    [where rast = demo_rasterizer and wk = "worker_of demo_engine" and pdfPath = "''upload.pdf''"
       and pageNumbers = "[3, 1, 1, 7]" and options = default_pdf_options and w = demo_world
       and ?res2.0 = "fst x" and ?w2.0 = "snd x"]
  have "files (snd x) = {''upload.pdf''}"
    by (auto simp: demo_rasterizer_def demo_world_def)
  with run show "\<exists>res w'. extractTextFromPdfPages_process demo_rasterizer (worker_of demo_engine)
                 ''upload.pdf'' [3, 1, 1, 7] default_pdf_options demo_world = Returned (res, w') \<and>
              files w' = {''upload.pdf''}"
    by blast
next
  have run: "extractTextFromPdf_process demo_rasterizer demo_worker ''broken.pdf''
                 default_pdf_options demo_world =
     Returned (Inl ''PDF OCR processing failed: Failed to convert PDF to images: Unable to render'',
               demo_world\<lparr>files := files demo_world \<union> set [''page1.png'']\<rparr>)"
    by (simp add: extractTextFromPdf_process_def convertPdfToImages_def demo_rasterizer_def)
  with page_images_after_return
    [of demo_rasterizer demo_worker "''broken.pdf''" default_pdf_options demo_world
        "Inl ''PDF OCR processing failed: Failed to convert PDF to images: Unable to render''"
        "demo_world\<lparr>files := files demo_world \<union> set [''page1.png'']\<rparr>"]
  have "files (demo_world\<lparr>files := files demo_world \<union> set [''page1.png'']\<rparr>) =
          {''upload.pdf'', ''page1.png''}"
    by (auto simp: demo_rasterizer_def demo_world_def)
  with run show "\<exists>res w'. extractTextFromPdf_process demo_rasterizer demo_worker ''broken.pdf''
                 default_pdf_options demo_world = Returned (res, w') \<and>
              isl res \<and> files w' = {''upload.pdf'', ''page1.png''}"
    by auto
qed

text \<open>
  Claim C5, as stated, fails on two exits. On \<^verbatim>\<open>broken.pdf\<close> the rasterizer writes the
  first page image and rejects: \<open>extractTextFromPdf\<close> returns the conversion error and the
  image is still on disk. On the three-page document, when the image of the third page
  cannot be unlinked, \<open>extractTextFromPdf\<close> returns its report and that image is still on
  disk.
\<close>

theorem page_images_counterexample:
  "fst (returned (extractTextFromPdf_process demo_rasterizer demo_worker ''broken.pdf''
          default_pdf_options demo_world)) =
     Inl ''PDF OCR processing failed: Failed to convert PDF to images: Unable to render''
   \<and> files (snd (returned (extractTextFromPdf_process demo_rasterizer demo_worker ''broken.pdf''
          default_pdf_options demo_world))) = {''upload.pdf'', ''page1.png''}
   \<and> files (snd (returned (extractTextFromPdf_process demo_rasterizer (worker_of demo_engine)
          ''upload.pdf'' default_pdf_options demo_locked_world))) = {''upload.pdf'', ''page3.png''}"
proof -
  have "extractTextFromPdf_process demo_rasterizer demo_worker ''broken.pdf''
          default_pdf_options demo_world =
     Returned (Inl ''PDF OCR processing failed: Failed to convert PDF to images: Unable to render'',
               demo_world\<lparr>files := files demo_world \<union> set [''page1.png'']\<rparr>)"
    by (simp add: extractTextFromPdf_process_def convertPdfToImages_def demo_rasterizer_def)
  moreover have "files (snd (extractTextFromPdf demo_rasterizer demo_engine ''upload.pdf''
      default_pdf_options demo_locked_world)) = {''upload.pdf'', ''page3.png''}"
    using extractTextFromPdf_disk(1)
      [of demo_rasterizer "''upload.pdf''" default_pdf_options
          "[''page1.png'', ''bad.png'', ''page3.png'']" demo_engine demo_locked_world]
    by (auto simp: demo_rasterizer_def demo_locked_world_def)
  ultimately show ?thesis
    by (auto simp: process_worker_of demo_world_def)
qed

section \<open>The batch in the process\<close>

text \<open>
  Claim C6 against the code. On the uploads valid, rejected, valid, when the failure on
  the second image is one the engine's worker reports, the process exits while the batch
  is running: there is no response and no outcome for any item. The \<^verbatim>\<open>try\<close> of the batch
  loop would contain the failure, as it does when the same failure is a rejection of the
  promise only: then the process returns the response of \<open>batchExtract\<close>.
\<close>

theorem batchExtract_process_exits:
  "batchExtract_process demo_worker (Some demo_uploads) demo_batch_body demo_world = ProcessExit
   \<and> batchExtract_process (worker_of demo_engine) (Some demo_uploads) demo_batch_body demo_world =
       Returned (batchExtract demo_engine (Some demo_uploads) demo_batch_body demo_world)"
proof -
  have "batchExtract_process demo_worker (Some demo_uploads) demo_batch_body demo_world =
      ProcessExit"
    by (simp add: batchExtract_process_def demo_uploads_def demo_batch_body_def default_str_def
        default_ocr_options_def extractTextFromImage_process_def extractTextFromImage_def
        supportedLanguages_def demo_worker_def demo_engine_def settled_def Let_def)
  then show ?thesis by (simp add: process_worker_of)
qed

end
